theory Spec2Isabelle
  imports Main "HOL-Library.Word"
begin

section \<open>Python values shared by the modules\<close>

text \<open>
  A Python \<^verbatim>\<open>bytes\<close> object is a list of 8-bit words. A Python \<^verbatim>\<open>str\<close> is a list of
  Unicode code points, each a natural number; \<open>lit\<close> turns a literal of the theory
  into such a list.
\<close>

type_synonym byte = "8 word"
type_synonym bytes = "byte list"
type_synonym pystr = "nat list"

definition lit :: "string \<Rightarrow> pystr" where
  "lit s = map of_char s"

definition LF :: nat where "LF = 10"
definition CR :: nat where "CR = 13"

text \<open>
  The exceptions that the modelled code raises or lets through. \<open>SocketTimeout\<close> is
  \<^verbatim>\<open>socket.timeout\<close> (the same class as \<^verbatim>\<open>TimeoutError\<close>), \<open>OSError\<close> is any other
  \<^verbatim>\<open>socket.error\<close>; \<open>DeviceTimeoutError\<close> and \<open>DeviceConnectionError\<close> are the two
  kinds of \<^verbatim>\<open>egse.device\<close> that the transport translates them to.
\<close>

datatype error =
    DeviceTimeoutError
  | DeviceConnectionError
  | SocketTimeout
  | OSError
  | ConnectionError
  | AttributeError
  | UnicodeEncodeError
  | UnboundLocalError
  | ValueError
  | TypeError
  | IndexError
  | KeyError
  | OverflowError
  | SetupError
  | OtherError

section \<open>The socket\<close>

text \<open>
  The peer and the network are the environment of the transport. A socket holds its
  timeout setting (\<open>None\<close> is blocking mode), the events that the coming calls of
  \<^verbatim>\<open>recv\<close> will meet, the faults that the coming calls of \<^verbatim>\<open>sendall\<close> will meet, and
  a log of what was sent and of how often \<^verbatim>\<open>recv\<close> was called.
\<close>

datatype recv_event = Data bytes | RecvTimeout | RecvError

datatype fault = TimedOut | Failed

fun raised :: "fault \<Rightarrow> error" where
  "raised TimedOut = SocketTimeout"
| "raised Failed = OSError"

record 't socket =
  sock_timeout :: "'t option"
  incoming :: "recv_event list"
  send_faults :: "fault option list"
  sent :: "bytes list"
  recv_calls :: nat

definition gettimeout :: "'t socket \<Rightarrow> 't option" where
  "gettimeout s = sock_timeout s"

definition settimeout :: "'t option \<Rightarrow> 't socket \<Rightarrow> 't socket" where
  "settimeout t s = s\<lparr>sock_timeout := t\<rparr>"

text \<open>
  \<^verbatim>\<open>sock.recv(bufsize)\<close> returns at most \<open>bufsize\<close> of the bytes that have arrived and
  leaves the rest for the next call. With a timeout set, as it is throughout
  \<^verbatim>\<open>read()\<close>, a call that finds nothing pending raises \<^verbatim>\<open>socket.timeout\<close>.
\<close>

definition recv :: "nat \<Rightarrow> 't socket \<Rightarrow> (error + bytes) \<times> 't socket" where
  "recv bufsize s =
     (let s' = s\<lparr>recv_calls := Suc (recv_calls s)\<rparr> in
      case incoming s of
        [] \<Rightarrow> (Inl SocketTimeout, s')
      | RecvTimeout # rest \<Rightarrow> (Inl SocketTimeout, s'\<lparr>incoming := rest\<rparr>)
      | RecvError # rest \<Rightarrow> (Inl OSError, s'\<lparr>incoming := rest\<rparr>)
      | Data d # rest \<Rightarrow>
          if length d \<le> bufsize then (Inr d, s'\<lparr>incoming := rest\<rparr>)
          else (Inr (take bufsize d), s'\<lparr>incoming := Data (drop bufsize d) # rest\<rparr>))"

text \<open>
  \<^verbatim>\<open>sock.sendall(data)\<close> either sends all of \<open>data\<close> or raises the fault that the
  environment has in store for this call.
\<close>

definition sendall :: "bytes \<Rightarrow> 't socket \<Rightarrow> fault option \<times> 't socket" where
  "sendall data s =
     (case send_faults s of
        [] \<Rightarrow> (None, s\<lparr>sent := sent s @ [data]\<rparr>)
      | None # rest \<Rightarrow> (None, s\<lparr>send_faults := rest, sent := sent s @ [data]\<rparr>)
      | Some f # rest \<Rightarrow> (Some f, s\<lparr>send_faults := rest\<rparr>))"

section \<open>tgf4000\_devif: the Ethernet transport\<close>

record 't Tgf4000EthernetInterface =
  hostname :: "pystr option"
  port :: "int option"
  device_id :: "pystr option"
  sock :: "'t socket option"
  is_connection_open :: bool
  read_timeout :: 't

definition buf_size :: nat where
  "buf_size = 2048"

text \<open>
  The loop of \<^verbatim>\<open>read()\<close>: \<^verbatim>\<open>for idx in range(100)\<close>, with the iterations left as the
  first argument. Each pass assigns the chunk to \<^verbatim>\<open>data\<close>, adds its length to
  \<^verbatim>\<open>n_total\<close> and leaves the loop on a chunk shorter than \<open>buf_size\<close>. The result is
  the value of \<^verbatim>\<open>data\<close> (with \<^verbatim>\<open>n_total\<close>) after the loop, or the exception of
  \<^verbatim>\<open>recv\<close>.
\<close>

fun read_loop ::
  "nat \<Rightarrow> nat \<Rightarrow> bytes \<Rightarrow> 't socket \<Rightarrow> (error + bytes \<times> nat) \<times> 't socket" where
  "read_loop 0 n_total data s = (Inr (data, n_total), s)"
| "read_loop (Suc k) n_total data s =
     (case recv buf_size s of
        (Inl e, s') \<Rightarrow> (Inl e, s')
      | (Inr d, s') \<Rightarrow>
          if length d < buf_size then (Inr (d, n_total + length d), s')
          else read_loop k (n_total + length d) d s')"

text \<open>
  \<^verbatim>\<open>read()\<close>: save the timeout, set the read timeout, run the loop, and restore the
  saved timeout in the \<^verbatim>\<open>finally\<close> clause. A timeout of \<^verbatim>\<open>recv\<close> is answered with
  \<^verbatim>\<open>b"\r\n"\<close>; any other exception of \<^verbatim>\<open>recv\<close> goes on to the caller. Without a socket
  (\<^verbatim>\<open>self._sock\<close> is \<^verbatim>\<open>None\<close>) the first statement raises \<^verbatim>\<open>AttributeError\<close>.
\<close>

definition read ::
  "'t Tgf4000EthernetInterface \<Rightarrow> (error + bytes) \<times> 't Tgf4000EthernetInterface" where
  "read self =
     (case sock self of
        None \<Rightarrow> (Inl AttributeError, self)
      | Some s \<Rightarrow>
          let saved_timeout = gettimeout s;
              s1 = settimeout (Some (read_timeout self)) s;
              (r, s2) = read_loop 100 0 [] s1;
              s3 = settimeout saved_timeout s2;
              self' = self\<lparr>sock := Some s3\<rparr>
          in (case r of
                Inl SocketTimeout \<Rightarrow> (Inr [13, 10], self')
              | Inl e \<Rightarrow> (Inl e, self')
              | Inr (data, n_total) \<Rightarrow> (Inr data, self')))"

subsection \<open>The codec of commands and replies\<close>

text \<open>
  \<^verbatim>\<open>str.encode()\<close> is UTF-8. A surrogate code point cannot be encoded: the call
  raises \<^verbatim>\<open>UnicodeEncodeError\<close>.
\<close>

definition utf8_encode_cp :: "nat \<Rightarrow> bytes option" where
  "utf8_encode_cp c =
     (if c < 0x80 then Some [of_nat c]
      else if c < 0x800 then Some [of_nat (0xC0 + c div 64), of_nat (0x80 + c mod 64)]
      else if 0xD800 \<le> c \<and> c < 0xE000 then None
      else if c < 0x10000 then
        Some [of_nat (0xE0 + c div 4096), of_nat (0x80 + c div 64 mod 64),
              of_nat (0x80 + c mod 64)]
      else if c < 0x110000 then
        Some [of_nat (0xF0 + c div 262144), of_nat (0x80 + c div 4096 mod 64),
              of_nat (0x80 + c div 64 mod 64), of_nat (0x80 + c mod 64)]
      else None)"

fun encode :: "pystr \<Rightarrow> bytes option" where
  "encode [] = Some []"
| "encode (c # cs) =
     (case utf8_encode_cp c of
        None \<Rightarrow> None
      | Some bs \<Rightarrow> (case encode cs of None \<Rightarrow> None | Some rest \<Rightarrow> Some (bs @ rest)))"

text \<open>
  \<^verbatim>\<open>bytes.decode()\<close> is strict UTF-8: \<open>None\<close> stands for \<^verbatim>\<open>UnicodeDecodeError\<close>.
  Well-formed sequences are those of the Unicode standard: no overlong form, no
  surrogate, nothing above U+10FFFF.
\<close>

definition in_range :: "nat \<Rightarrow> nat \<Rightarrow> byte \<Rightarrow> bool" where
  "in_range lo hi b = (lo \<le> unat b \<and> unat b \<le> hi)"

definition cont :: "byte \<Rightarrow> nat" where
  "cont b = unat b - 0x80"

fun decode :: "bytes \<Rightarrow> pystr option" where
  "decode [] = Some []"
| "decode (b # bs) =
     (let x = unat b in
      if x < 0x80 then map_option ((#) x) (decode bs)
      else if 0xC2 \<le> x \<and> x \<le> 0xDF then
        (case bs of
           b1 # r \<Rightarrow>
             if in_range 0x80 0xBF b1
             then map_option ((#) ((x - 0xC0) * 64 + cont b1)) (decode r)
             else None
         | _ \<Rightarrow> None)
      else if 0xE0 \<le> x \<and> x \<le> 0xEF then
        (case bs of
           b1 # b2 # r \<Rightarrow>
             if in_range (if x = 0xE0 then 0xA0 else 0x80) (if x = 0xED then 0x9F else 0xBF) b1
                \<and> in_range 0x80 0xBF b2
             then map_option ((#) ((x - 0xE0) * 4096 + cont b1 * 64 + cont b2)) (decode r)
             else None
         | _ \<Rightarrow> None)
      else if 0xF0 \<le> x \<and> x \<le> 0xF4 then
        (case bs of
           b1 # b2 # b3 # r \<Rightarrow>
             if in_range (if x = 0xF0 then 0x90 else 0x80) (if x = 0xF4 then 0x8F else 0xBF) b1
                \<and> in_range 0x80 0xBF b2 \<and> in_range 0x80 0xBF b3
             then map_option
                    ((#) ((x - 0xF0) * 262144 + cont b1 * 4096 + cont b2 * 64 + cont b3))
                    (decode r)
             else None
         | _ \<Rightarrow> None)
      else None)"

text \<open>
  The characters for which \<^verbatim>\<open>str.isspace()\<close> holds; \<^verbatim>\<open>str.rstrip()\<close> and
  \<^verbatim>\<open>str.strip()\<close> remove them from the end, or from both ends.
\<close>

definition isspace :: "nat \<Rightarrow> bool" where
  "isspace c =
     ((9 \<le> c \<and> c \<le> 13) \<or> (28 \<le> c \<and> c \<le> 32) \<or> c = 0x85 \<or> c = 0xA0 \<or> c = 0x1680
      \<or> (0x2000 \<le> c \<and> c \<le> 0x200A) \<or> c = 0x2028 \<or> c = 0x2029 \<or> c = 0x202F
      \<or> c = 0x205F \<or> c = 0x3000)"

definition rstrip :: "pystr \<Rightarrow> pystr" where
  "rstrip s = rev (dropWhile isspace (rev s))"

definition strip :: "pystr \<Rightarrow> pystr" where
  "strip s = dropWhile isspace (rstrip s)"

definition endswith :: "'a list \<Rightarrow> 'a list \<Rightarrow> bool" where
  "endswith s suffix =
     (length suffix \<le> length s \<and> drop (length s - length suffix) s = suffix)"

subsection \<open>write and trans\<close>

text \<open>
  The first statement of both methods:
  \<^verbatim>\<open>command += "\n" if not command.endswith("\n") else ""\<close>.
\<close>

definition terminated :: "pystr \<Rightarrow> pystr" where
  "terminated command = command @ (if \<not> endswith command [LF] then [LF] else [])"

text \<open>
  The \<^verbatim>\<open>except\<close> clauses that \<^verbatim>\<open>write\<close> and \<^verbatim>\<open>trans\<close> share, in their order:
  \<^verbatim>\<open>socket.timeout\<close>, then \<^verbatim>\<open>socket.error\<close> (which \<^verbatim>\<open>ConnectionError\<close> is a
  subclass of), then \<^verbatim>\<open>AttributeError\<close>, which becomes a \<open>DeviceConnectionError\<close>
  when the connection is not open and is raised again otherwise. Any other exception
  passes through.
\<close>

fun translate :: "bool \<Rightarrow> error \<Rightarrow> error" where
  "translate opened SocketTimeout = DeviceTimeoutError"
| "translate opened OSError = DeviceConnectionError"
| "translate opened ConnectionError = DeviceConnectionError"
| "translate opened AttributeError =
     (if \<not> opened then DeviceConnectionError else AttributeError)"
| "translate opened e = e"

text \<open>
  \<^verbatim>\<open>write(command)\<close>. The attribute \<^verbatim>\<open>self._sock.sendall\<close> is looked up before its
  argument is evaluated, so a missing socket is met before the command is encoded.
  \<open>None\<close> in the result is the normal return.
\<close>

definition write' ::
  "pystr \<Rightarrow> 't Tgf4000EthernetInterface \<Rightarrow> error option \<times> 't Tgf4000EthernetInterface" where
  "write' command self =
     (let command = terminated command in
      case sock self of
        None \<Rightarrow> (Some (translate (is_connection_open self) AttributeError), self)
      | Some s \<Rightarrow>
          (case encode command of
             None \<Rightarrow> (Some UnicodeEncodeError, self)
           | Some data \<Rightarrow>
               (case sendall data s of
                  (None, s') \<Rightarrow> (None, self\<lparr>sock := Some s'\<rparr>)
                | (Some f, s') \<Rightarrow>
                    (Some (translate (is_connection_open self) (raised f)),
                     self\<lparr>sock := Some s'\<rparr>))))"

text \<open>
  \<^verbatim>\<open>trans(command)\<close> returns the decoded reply without its trailing white space, or
  the raw bytes when they are not UTF-8 (\<^verbatim>\<open>except UnicodeError: return return_string\<close>).
  When it is the command that cannot be encoded, that clause finds \<^verbatim>\<open>return_string\<close>
  unbound.
\<close>

datatype reply = ReplyStr pystr | ReplyBytes bytes

definition trans' ::
  "pystr \<Rightarrow> 't Tgf4000EthernetInterface \<Rightarrow> (error + reply) \<times> 't Tgf4000EthernetInterface" where
  "trans' command self =
     (let command = terminated command; opened = is_connection_open self in
      case sock self of
        None \<Rightarrow> (Inl (translate opened AttributeError), self)
      | Some s \<Rightarrow>
          (case encode command of
             None \<Rightarrow> (Inl UnboundLocalError, self)
           | Some data \<Rightarrow>
               (case sendall data s of
                  (Some f, s') \<Rightarrow> (Inl (translate opened (raised f)), self\<lparr>sock := Some s'\<rparr>)
                | (None, s') \<Rightarrow>
                    (case read (self\<lparr>sock := Some s'\<rparr>) of
                       (Inl e, self') \<Rightarrow> (Inl (translate opened e), self')
                     | (Inr return_string, self') \<Rightarrow>
                         (case decode return_string of
                            None \<Rightarrow> (Inr (ReplyBytes return_string), self')
                          | Some text \<Rightarrow> (Inr (ReplyStr (rstrip text)), self'))))))"

subsection \<open>Scenarios of the transport\<close>

text \<open>
  A run of full chunks: each holds exactly \<open>buf_size\<close> bytes, so that the loop of
  \<^verbatim>\<open>read()\<close> goes on after it.
\<close>

definition full :: "bytes list \<Rightarrow> bool" where
  "full cs = list_all (\<lambda>c. length c = buf_size) cs"

text \<open>The next \<^verbatim>\<open>sendall\<close> meets no fault.\<close>

definition send_ok :: "'t socket \<Rightarrow> bool" where
  "send_ok s = (case send_faults s of [] \<Rightarrow> True | f # fs \<Rightarrow> f = None)"

text \<open>
  A connected interface whose peer behaves as the two scripts say: a fresh socket in
  blocking mode, and the default read timeout of 60 seconds.
\<close>

definition peer :: "recv_event list \<Rightarrow> fault option list \<Rightarrow> nat socket" where
  "peer evs faults =
     \<lparr>sock_timeout = None, incoming = evs, send_faults = faults, sent = [], recv_calls = 0\<rparr>"

definition connected :: "nat socket \<Rightarrow> nat Tgf4000EthernetInterface" where
  "connected s =
     \<lparr>hostname = Some (lit ''localhost''), port = Some 9221, device_id = Some (lit ''TGF4000''),
      sock = Some s, is_connection_open = True, read_timeout = 60\<rparr>"

section \<open>Built-in conversions of Python\<close>

text \<open>
  \<^verbatim>\<open>bytes.decode(encoding="latin1", errors="ignore")\<close>: every byte is the code point of
  the same value, and no byte is in error. \<^verbatim>\<open>str.encode(encoding="latin1")\<close> is its
  inverse and raises \<^verbatim>\<open>UnicodeEncodeError\<close> on a code point above 255.
\<close>

definition latin1_decode :: "bytes \<Rightarrow> pystr" where
  "latin1_decode b = map unat b"

definition latin1_encode :: "pystr \<Rightarrow> error + bytes" where
  "latin1_encode s = (if list_all (\<lambda>c. c < 256) s then Inr (map of_nat s) else Inl UnicodeEncodeError)"

text \<open>\<^verbatim>\<open>s.replace(c, "")\<close> for a single character \<open>c\<close>.\<close>

definition remove :: "nat \<Rightarrow> pystr \<Rightarrow> pystr" where
  "remove c s = filter (\<lambda>x. x \<noteq> c) s"

text \<open>
  \<^verbatim>\<open>s.split(sep)\<close> for a separator that is not empty: the occurrences of \<open>sep\<close> are
  found from left to right and do not overlap; the pieces between them are returned,
  empty ones included.
\<close>

fun split :: "pystr \<Rightarrow> pystr \<Rightarrow> pystr list" where
  "split sep [] = [[]]"
| "split sep (c # cs) =
     (if sep \<noteq> [] \<and> take (length sep) (c # cs) = sep
      then [] # split sep (drop (length sep - 1) cs)
      else (case split sep cs of p # ps \<Rightarrow> (c # p) # ps | [] \<Rightarrow> [[c]]))"

text \<open>
  What the conversions of strings to integers take from the interpreter:
  \<open>todecimal\<close>, the table of the decimal digits beyond ASCII in its Unicode
  database, and \<open>int_max_str_digits\<close>, its limit on the number of digits of a
  conversion, which is 4300 unless it is set otherwise and 0 when there is no limit.
\<close>

record interpreter =
  todecimal :: "nat \<Rightarrow> nat option"
  int_max_str_digits :: nat

text \<open>
  \<^verbatim>\<open>int(s, base)\<close> on a string, for the bases 10 and 16 that the code uses. The text
  is first brought to ASCII: a white-space character beyond ASCII becomes a blank and
  a decimal digit of another script becomes its ASCII digit. Then come optional white
  space, an optional sign, for base 16 an optional prefix \<^verbatim>\<open>0x\<close>, the digits, in which
  single underscores may stand between two digits (and one after the prefix), and
  optional white space. Anything else raises \<^verbatim>\<open>ValueError\<close>, and so does, when the base
  is not a power of two, a number of digits above 640 that exceeds the limit of the
  interpreter.
\<close>

fun to_ascii :: "(nat \<Rightarrow> nat option) \<Rightarrow> pystr \<Rightarrow> pystr" where
  "to_ascii table [] = []"
| "to_ascii table (c # cs) =
     (if c < 128 then c # to_ascii table cs
      else if isspace c then 32 # to_ascii table cs
      else (case table c of
              None \<Rightarrow> [63]
            | Some d \<Rightarrow> (48 + d) # to_ascii table cs))"

definition ascii_space :: "nat \<Rightarrow> bool" where
  "ascii_space c = (c = 32 \<or> (9 \<le> c \<and> c \<le> 13))"

definition digit_value :: "nat \<Rightarrow> nat" where
  "digit_value c =
     (if 48 \<le> c \<and> c \<le> 57 then c - 48
      else if 97 \<le> c \<and> c \<le> 122 then c - 87
      else if 65 \<le> c \<and> c \<le> 90 then c - 55
      else 37)"

text \<open>
  The scan of the digits: \<open>prev\<close> tells whether the character before was an
  underscore, \<open>ds\<close> collects the values of the digits. The result is the digits with
  the text that follows them, or \<open>None\<close> for a doubled or trailing underscore.
\<close>

fun scan :: "nat \<Rightarrow> bool \<Rightarrow> pystr \<Rightarrow> nat list \<Rightarrow> (nat list \<times> pystr) option" where
  "scan base prev [] ds = (if prev then None else Some (ds, []))"
| "scan base prev (c # cs) ds =
     (if c = 95 then (if prev then None else scan base True cs ds)
      else if digit_value c < base then scan base False cs (ds @ [digit_value c])
      else if prev then None else Some (ds, c # cs))"

definition binary_base :: "nat \<Rightarrow> bool" where
  "binary_base base = (base = 2 \<or> base = 4 \<or> base = 8 \<or> base = 16 \<or> base = 32)"

definition exceeds_limit :: "interpreter \<Rightarrow> nat \<Rightarrow> nat \<Rightarrow> bool" where
  "exceeds_limit interp base digits =
     (\<not> binary_base base \<and> 640 < digits \<and> 0 < int_max_str_digits interp
      \<and> int_max_str_digits interp < digits)"

definition py_int :: "interpreter \<Rightarrow> nat \<Rightarrow> pystr \<Rightarrow> error + int" where
  "py_int interp base s =
     (let t = dropWhile ascii_space (to_ascii (todecimal interp) s);
          negative = (take 1 t = [45]);
          t = (if take 1 t = [43] \<or> take 1 t = [45] then drop 1 t else t);
          t = (if base = 16 \<and> (take 2 t = [48, 120] \<or> take 2 t = [48, 88])
               then (if take 1 (drop 2 t) = [95] then drop 3 t else drop 2 t)
               else t)
      in if take 1 t = [95] then Inl ValueError
         else (case scan base False t [] of
                 None \<Rightarrow> Inl ValueError
               | Some (ds, rest) \<Rightarrow>
                   if ds = [] \<or> dropWhile ascii_space rest \<noteq> []
                      \<or> exceeds_limit interp base (length ds)
                   then Inl ValueError
                   else Inr ((if negative then - 1 else 1)
                             * int (foldl (\<lambda>acc d. acc * base + d) 0 ds))))"

text \<open>\<^verbatim>\<open>str(n)\<close> for an integer that is not negative.\<close>

fun py_str :: "nat \<Rightarrow> pystr" where
  "py_str n = (if n < 10 then [48 + n] else py_str (n div 10) @ [48 + n mod 10])"

declare py_str.simps [simp del]

section \<open>tgf4000: the parsers of the replies\<close>

definition unpack_response :: "bytes \<Rightarrow> pystr list option" where
  "unpack_response response =
     (if length response = 0 then None
      else Some (split (lit '', '') (remove LF (remove CR (latin1_decode response)))))"

text \<open>
  The loop \<^verbatim>\<open>for index, item in enumerate(response): response[index] = f(item)\<close>: the
  first conversion that raises ends it.
\<close>

fun convert_all :: "('a \<Rightarrow> error + 'b) \<Rightarrow> 'a list \<Rightarrow> error + 'b list" where
  "convert_all f [] = Inr []"
| "convert_all f (item # items) =
     (case f item of
        Inl e \<Rightarrow> Inl e
      | Inr v \<Rightarrow> (case convert_all f items of Inl e \<Rightarrow> Inl e | Inr vs \<Rightarrow> Inr (v # vs)))"

text \<open>
  The result of a parser: the only value when there is one, the tuple of the values
  otherwise.
\<close>

datatype 'a parsed = Single 'a | Tuple "'a list"

definition single_or_tuple :: "'a list \<Rightarrow> 'a parsed" where
  "single_or_tuple response = (case response of [v] \<Rightarrow> Single v | _ \<Rightarrow> Tuple response)"

text \<open>
  \<^verbatim>\<open>parse_ints\<close>. On the empty bytestring \<^verbatim>\<open>unpack_response\<close> returns \<^verbatim>\<open>None\<close>, and
  \<^verbatim>\<open>enumerate(None)\<close> raises \<^verbatim>\<open>TypeError\<close>.
\<close>

definition parse_ints :: "interpreter \<Rightarrow> bytes \<Rightarrow> error + int parsed" where
  "parse_ints interp response =
     (case unpack_response response of
        None \<Rightarrow> Inl TypeError
      | Some items \<Rightarrow>
          (case convert_all (py_int interp 10) items of
             Inl e \<Rightarrow> Inl e
           | Inr vs \<Rightarrow> Inr (single_or_tuple vs)))"

text \<open>
  \<^verbatim>\<open>parse_floats\<close> is the same code with \<^verbatim>\<open>float(item)\<close> in place of \<^verbatim>\<open>int(item)\<close>. The
  floating-point numbers are a type \<open>'f\<close> of their own and \<^verbatim>\<open>float\<close> on strings is a
  parameter \<open>py_float\<close>.
\<close>

definition parse_floats :: "(pystr \<Rightarrow> error + 'f) \<Rightarrow> bytes \<Rightarrow> error + 'f parsed" where
  "parse_floats py_float response =
     (case unpack_response response of
        None \<Rightarrow> Inl TypeError
      | Some items \<Rightarrow>
          (case convert_all py_float items of
             Inl e \<Rightarrow> Inl e
           | Inr vs \<Rightarrow> Inr (single_or_tuple vs)))"

subsection \<open>Replies and numerals, as the claims about the parsers describe them\<close>

text \<open>\<^verbatim>\<open>sep.join(pieces)\<close>: the pieces with \<open>sep\<close> between each two of them.\<close>

fun join :: "pystr \<Rightarrow> pystr list \<Rightarrow> pystr" where
  "join sep [] = []"
| "join sep [p] = p"
| "join sep (p # q # ps) = p @ sep @ join sep (q # ps)"

text \<open>
  A decimal numeral: one or more of the digits 0 to 9, after an optional sign. Its
  value is read by position, each digit counting for as many powers of ten as there
  are digits after it.
\<close>

definition is_digit :: "nat \<Rightarrow> bool" where
  "is_digit c = (48 \<le> c \<and> c \<le> 57)"

definition decimal_numeral :: "pystr \<Rightarrow> bool" where
  "decimal_numeral s =
     (case s of
        [] \<Rightarrow> False
      | c # r \<Rightarrow> if c = 43 \<or> c = 45 then r \<noteq> [] \<and> list_all is_digit r
                 else list_all is_digit s)"

fun magnitude :: "pystr \<Rightarrow> nat" where
  "magnitude [] = 0"
| "magnitude (c # cs) = (c - 48) * 10 ^ length cs + magnitude cs"

definition numeral_value :: "pystr \<Rightarrow> int" where
  "numeral_value s =
     (case s of
        [] \<Rightarrow> 0
      | c # r \<Rightarrow> if c = 45 then - int (magnitude r)
                 else if c = 43 then int (magnitude r)
                 else int (magnitude s))"

text \<open>
  The number of digits of a numeral, and whether the interpreter converts a numeral of
  that many digits: up to 640 digits always, beyond that up to its limit, if it has
  one. An interpreter with the limit it starts with, for the examples.
\<close>

definition digits_of :: "pystr \<Rightarrow> nat" where
  "digits_of s = length (filter is_digit s)"

definition allowed :: "interpreter \<Rightarrow> nat \<Rightarrow> bool" where
  "allowed interp digits =
     (digits \<le> 640 \<or> int_max_str_digits interp = 0 \<or> digits \<le> int_max_str_digits interp)"

definition an_interpreter :: interpreter where
  "an_interpreter = \<lparr>todecimal = (\<lambda>c. None), int_max_str_digits = 4300\<rparr>"

text \<open>
  A field of a reply that the split and the removal of the terminators leave as it
  is: it holds no comma, no carriage return and no line feed.
\<close>

definition plain_field :: "pystr \<Rightarrow> bool" where
  "plain_field f = list_all (\<lambda>c. c \<noteq> 44 \<and> c \<noteq> CR \<and> c \<noteq> LF) f"

text \<open>
  The optional terminators at the end of a reply: any run of carriage returns and line
  feeds, \<^verbatim>\<open>"\r\n"\<close> among them.
\<close>

definition terminator :: "pystr \<Rightarrow> bool" where
  "terminator t = list_all (\<lambda>c. c = CR \<or> c = LF) t"

section \<open>aim\_tti: the data of an arbitrary waveform\<close>

record ArbData =
  array :: "int list"
  filename :: "pystr option"

definition ArbData_init :: ArbData where
  "ArbData_init = \<lparr>array = [], filename = None\<rparr>"

text \<open>
  \<^verbatim>\<open>number.to_bytes(length=2, byteorder="big", signed=True)\<close>: the two's complement of
  \<open>number\<close> on 16 bits, high byte first; \<^verbatim>\<open>OverflowError\<close> outside of the 16-bit range.
\<close>

definition to_bytes :: "int \<Rightarrow> error + bytes" where
  "to_bytes number =
     (if - 32768 \<le> number \<and> number \<le> 32767
      then Inr [of_int (number mod 65536 div 256), of_int (number mod 256)]
      else Inl OverflowError)"

text \<open>
  \<^verbatim>\<open>int.from_bytes(number, byteorder="big", signed=True)\<close>: the bytes as a number in
  base 256, less \<open>2 ^ n\<close> when the top bit of its \<open>n\<close> bits is set.
\<close>

definition from_bytes :: "bytes \<Rightarrow> int" where
  "from_bytes number =
     (let v = foldl (\<lambda>a b. a * 256 + uint b) 0 number; n = 8 * length number
      in if number \<noteq> [] \<and> 2 ^ (n - 1) \<le> v then v - 2 ^ n else v)"

text \<open>The loop of \<^verbatim>\<open>array_as_bytes\<close>, with \<^verbatim>\<open>byte_string\<close> as its second argument.\<close>

fun array_as_bytes_loop :: "int list \<Rightarrow> bytes \<Rightarrow> error + bytes" where
  "array_as_bytes_loop [] byte_string = Inr byte_string"
| "array_as_bytes_loop (number # rest) byte_string =
     (case to_bytes number of
        Inl e \<Rightarrow> Inl e
      | Inr b \<Rightarrow> array_as_bytes_loop rest (byte_string @ b))"

definition array_as_bytes :: "ArbData \<Rightarrow> error + bytes" where
  "array_as_bytes self = array_as_bytes_loop (array self) []"

text \<open>
  The property \<^verbatim>\<open>string\<close>: the character \<^verbatim>\<open>#\<close>, the number of digits of the length,
  the length of the data in bytes, and the data, each byte as the character of the
  same code.
\<close>

definition string :: "ArbData \<Rightarrow> error + pystr" where
  "string self =
     (case array_as_bytes self of
        Inl e \<Rightarrow> Inl e
      | Inr b \<Rightarrow>
          let byte_array = latin1_decode b;
              num_bytes = length byte_array;
              str_num_bytes = py_str num_bytes;
              len_num_bytes = length str_num_bytes
          in Inr (lit ''#'' @ py_str len_num_bytes @ str_num_bytes @ byte_array))"

text \<open>
  \<^verbatim>\<open>array_from_bytes(data)\<close> on a string: two bytes for each number; a last single
  byte is left out.
\<close>

definition array_from_bytes :: "pystr \<Rightarrow> ArbData \<Rightarrow> error option \<times> ArbData" where
  "array_from_bytes data self =
     (case latin1_encode data of
        Inl e \<Rightarrow> (Some e, self)
      | Inr bytestring \<Rightarrow>
          let num_numbers = length bytestring div 2;
              num_array = map (\<lambda>index. from_bytes (take 2 (drop (index * 2) bytestring)))
                              [0..<num_numbers]
          in (None, self\<lparr>array := num_array\<rparr>))"

text \<open>The slice \<^verbatim>\<open>s[k:]\<close>; a negative \<open>k\<close> counts from the end.\<close>

definition slice_from :: "int \<Rightarrow> 'a list \<Rightarrow> 'a list" where
  "slice_from k s = (if 0 \<le> k then drop (nat k) s else drop (length s - nat (- k)) s)"

text \<open>
  \<^verbatim>\<open>init_from_bytestring\<close>: the character at index 1 tells how many characters the
  length takes; the data start after them. A bytestring of fewer than two bytes
  raises \<^verbatim>\<open>IndexError\<close>, a character at index 1 that is not a digit \<^verbatim>\<open>ValueError\<close>.
\<close>

definition init_from_bytestring ::
  "interpreter \<Rightarrow> bytes \<Rightarrow> ArbData \<Rightarrow> error option \<times> ArbData" where
  "init_from_bytestring interp bytestring self =
     (let bytestring = latin1_decode bytestring in
      if length bytestring \<le> 1 then (Some IndexError, self)
      else (case py_int interp 10 [bytestring ! 1] of
              Inl e \<Rightarrow> (Some e, self)
            | Inr len_num_bytes \<Rightarrow>
                array_from_bytes (slice_from (2 + len_num_bytes) bytestring) self))"

text \<open>
  \<^verbatim>\<open>int(np.int16(v))\<close>: the value of the low 16 bits of \<open>v\<close> in two's complement, the
  folding that the examples of the docstring of \<^verbatim>\<open>array_from_hex_string\<close> show.
\<close>

definition np_int16 :: "int \<Rightarrow> int" where
  "np_int16 v = (v + 32768) mod 65536 - 32768"

text \<open>
  The loop of \<^verbatim>\<open>array_from_hex_string\<close> over the indices of \<^verbatim>\<open>range(num_hex_numbers)\<close>:
  each number is appended to \<^verbatim>\<open>self.array\<close>, and a group that \<^verbatim>\<open>int\<close> rejects ends the
  loop with the numbers appended so far.
\<close>

fun hex_loop ::
  "interpreter \<Rightarrow> pystr \<Rightarrow> nat list \<Rightarrow> ArbData \<Rightarrow> error option \<times> ArbData" where
  "hex_loop interp hex_string [] self = (None, self)"
| "hex_loop interp hex_string (index # rest) self =
     (let index = index * 4;
          hex_number = take 4 (drop index hex_string)
      in case py_int interp 16 hex_number of
           Inl e \<Rightarrow> (Some e, self)
         | Inr v \<Rightarrow>
             hex_loop interp hex_string rest (self\<lparr>array := array self @ [np_int16 v]\<rparr>))"

definition array_from_hex_string ::
  "interpreter \<Rightarrow> pystr \<Rightarrow> ArbData \<Rightarrow> error option \<times> ArbData" where
  "array_from_hex_string interp hex_string self =
     (let self = self\<lparr>array := []\<rparr>;
          hex_string = strip (remove 32 hex_string);
          num_hex_numbers = length hex_string div 4
      in hex_loop interp hex_string [0..<num_hex_numbers] self)"

subsection \<open>Hexadecimal groups, as the claim about the hex string describes them\<close>

text \<open>The consecutive groups of four characters; what is left after the last is dropped.\<close>

fun groups_of_4 :: "pystr \<Rightarrow> pystr list" where
  "groups_of_4 (a # b # c # d # rest) = [a, b, c, d] # groups_of_4 rest"
| "groups_of_4 rest = []"

definition is_hex_digit :: "nat \<Rightarrow> bool" where
  "is_hex_digit c = ((48 \<le> c \<and> c \<le> 57) \<or> (65 \<le> c \<and> c \<le> 70) \<or> (97 \<le> c \<and> c \<le> 102))"

definition hex_digit :: "nat \<Rightarrow> nat" where
  "hex_digit c = (if c \<le> 57 then c - 48 else if c \<le> 70 then c - 55 else c - 87)"

fun hex_value :: "pystr \<Rightarrow> nat" where
  "hex_value [] = 0"
| "hex_value (c # cs) = hex_digit c * 16 ^ length cs + hex_value cs"

text \<open>The signed 16-bit value: from \<open>0x8000\<close> on, the values fold to the negatives.\<close>

definition signed16 :: "nat \<Rightarrow> int" where
  "signed16 v = (if 0x8000 \<le> v then int v - 0x10000 else int v)"

subsection \<open>Points and payload, as the claim about the round trip describes them\<close>

text \<open>A point of a waveform: an integer in the range of 16 bits.\<close>

definition in_int16 :: "int \<Rightarrow> bool" where
  "in_int16 x = (- 32768 \<le> x \<and> x \<le> 32767)"

text \<open>The payload: two bytes for each point, high byte first.\<close>

definition payload :: "int list \<Rightarrow> bytes" where
  "payload xs = concat (map (\<lambda>x. [of_int (x mod 65536 div 256), of_int (x mod 256)]) xs)"

section \<open>tgf4000: the interface, the simulator and the controller\<close>

text \<open>
  The values that the attributes of the simulator hold. The floating-point numbers
  are a type \<open>'f\<close> of their own. The members of the enumerations (\<^verbatim>\<open>Output\<close>,
  \<^verbatim>\<open>Waveform\<close>, \<^verbatim>\<open>CounterSource\<close>, \<^verbatim>\<open>CounterType\<close>) are strings, as their classes derive
  from \<^verbatim>\<open>str\<close>: a member is the string of its value.
\<close>

datatype 'f pyval = PyNone | PyFloat 'f | PyInt int | PyStr pystr | PyList "'f pyval list"

text \<open>The position that the index \<open>i\<close> has in a sequence of length \<open>n\<close>, if any.\<close>

definition position :: "int \<Rightarrow> nat \<Rightarrow> nat option" where
  "position i n =
     (if 0 \<le> i \<and> i < int n then Some (nat i)
      else if - int n \<le> i \<and> i < 0 then Some (nat (int n + i))
      else None)"

text \<open>
  \<^verbatim>\<open>obj[i]\<close>: an item of a list, a character of a string; \<^verbatim>\<open>IndexError\<close> out of range,
  and \<^verbatim>\<open>TypeError\<close> on \<^verbatim>\<open>None\<close> and on a number, which cannot be subscripted.
\<close>

fun getitem :: "'f pyval \<Rightarrow> int \<Rightarrow> error + 'f pyval" where
  "getitem (PyList xs) i =
     (case position i (length xs) of None \<Rightarrow> Inl IndexError | Some k \<Rightarrow> Inr (xs ! k))"
| "getitem (PyStr s) i =
     (case position i (length s) of None \<Rightarrow> Inl IndexError | Some k \<Rightarrow> Inr (PyStr [s ! k]))"
| "getitem obj i = Inl TypeError"

text \<open>\<^verbatim>\<open>obj[i] = v\<close>: only a list can be assigned to.\<close>

fun setitem :: "'f pyval \<Rightarrow> int \<Rightarrow> 'f pyval \<Rightarrow> error + 'f pyval" where
  "setitem (PyList xs) i v =
     (case position i (length xs) of
        None \<Rightarrow> Inl IndexError
      | Some k \<Rightarrow> Inr (PyList (xs[k := v])))"
| "setitem obj i v = Inl TypeError"

text \<open>
  The settings of the devices, \<^verbatim>\<open>DEVICE_SETTINGS\<close>, are loaded from a file that is not
  part of the sources: they are a parameter, a dictionary from the device identifiers
  to the entries of the devices. A key that is missing raises \<^verbatim>\<open>KeyError\<close>.
\<close>

record device_entry =
  HOSTNAME :: "pystr option"
  PORT :: "int option"

type_synonym device_settings = "pystr \<rightharpoonup> device_entry"

text \<open>
  \<^verbatim>\<open>Tgf4000EthernetInterface.__init__\<close>: the host name and the port come from the
  settings of the device when they are not given.
\<close>

definition EthernetInterface_init ::
  "device_settings \<Rightarrow> pystr option \<Rightarrow> int option \<Rightarrow> pystr option \<Rightarrow> 't
   \<Rightarrow> error + 't Tgf4000EthernetInterface" where
  "EthernetInterface_init DEVICE_SETTINGS hostname' port' device_id' read_timeout' =
     (let entry = (case device_id' of None \<Rightarrow> None | Some d \<Rightarrow> DEVICE_SETTINGS d);
          host = (case hostname' of
                    Some h \<Rightarrow> Inr h
                  | None \<Rightarrow> (case entry of
                               None \<Rightarrow> Inl KeyError
                             | Some e \<Rightarrow> (case HOSTNAME e of None \<Rightarrow> Inl KeyError | Some h \<Rightarrow> Inr h)));
          prt = (case port' of
                   Some p \<Rightarrow> Inr p
                 | None \<Rightarrow> (case entry of
                              None \<Rightarrow> Inl KeyError
                            | Some e \<Rightarrow> (case PORT e of None \<Rightarrow> Inl KeyError | Some p \<Rightarrow> Inr p)))
      in case host of
           Inl e \<Rightarrow> Inl e
         | Inr h \<Rightarrow>
             (case prt of
                Inl e \<Rightarrow> Inl e
              | Inr p \<Rightarrow>
                  Inr \<lparr>hostname = Some h, port = Some p, device_id = device_id', sock = None,
                       is_connection_open = False, read_timeout = read_timeout'\<rparr>))"

text \<open>
  \<^verbatim>\<open>Tgf4000Interface.__init__\<close>: the identifier, and an Ethernet interface of its own
  with the default read timeout of 60 seconds.
\<close>

record 't Tgf4000Interface =
  interface_device_id :: pystr
  ethernet_interface :: "'t Tgf4000EthernetInterface"

definition Tgf4000Interface_init ::
  "device_settings \<Rightarrow> pystr \<Rightarrow> error + ('t::numeral) Tgf4000Interface" where
  "Tgf4000Interface_init DEVICE_SETTINGS device_id' =
     (case EthernetInterface_init DEVICE_SETTINGS None None (Some device_id') 60 of
        Inl e \<Rightarrow> Inl e
      | Inr eth \<Rightarrow> Inr \<lparr>interface_device_id = device_id', ethernet_interface = eth\<rparr>)"

subsection \<open>The simulator\<close>

record ('t, 'f) Tgf4000Simulator = "'t Tgf4000Interface" +
  is_connected' :: bool
  channel :: int
  waveform_type :: "'f pyval"
  output_load :: "'f pyval"
  amplitude :: "'f pyval"
  dc_offset :: "'f pyval"
  duty_cycle :: "'f pyval"
  frequency :: "'f pyval"
  output_status :: "'f pyval"
  arb :: "'f pyval"
  arb1 :: "'f pyval"
  arb2 :: "'f pyval"
  arb3 :: "'f pyval"
  arb4 :: "'f pyval"
  counter_status :: "'f pyval"
  counter_source :: "'f pyval"
  counter_type :: "'f pyval"

definition Tgf4000Simulator_init ::
  "device_settings \<Rightarrow> pystr \<Rightarrow> error + ('t::numeral, 'f) Tgf4000Simulator" where
  "Tgf4000Simulator_init DEVICE_SETTINGS device_id' =
     (case Tgf4000Interface_init DEVICE_SETTINGS device_id' of
        Inl e \<Rightarrow> Inl e
      | Inr base \<Rightarrow>
          Inr \<lparr>interface_device_id = interface_device_id base,
               ethernet_interface = ethernet_interface base,
               is_connected' = True,
               channel = - 1,
               waveform_type = PyList [PyNone, PyNone],
               output_load = PyList [PyNone, PyNone],
               amplitude = PyList [PyNone, PyNone],
               dc_offset = PyList [PyNone, PyNone],
               duty_cycle = PyList [PyNone, PyNone],
               frequency = PyList [PyNone, PyNone],
               output_status = PyList [PyStr (lit ''OFF''), PyStr (lit ''OFF'')],
               arb = PyList [PyNone, PyNone],
               arb1 = PyNone, arb2 = PyNone, arb3 = PyNone, arb4 = PyNone,
               counter_status = PyList [PyStr (lit ''OFF''), PyStr (lit ''OFF'')],
               counter_source = PyList [PyStr (lit ''AC''), PyStr (lit ''AC'')],
               counter_type = PyList [PyStr (lit ''FREQUENCY''), PyStr (lit ''FREQUENCY'')]\<rparr>)"

text \<open>
  The methods of the simulator. A setter returns the exception that it raises, if
  any, and the simulator after the call; a getter returns its value or the exception.
\<close>

definition set_channel :: "int \<Rightarrow> ('t, 'f) Tgf4000Simulator \<Rightarrow> ('t, 'f) Tgf4000Simulator" where
  "set_channel channel' self = self\<lparr>channel := channel'\<rparr>"

definition get_channel :: "('t, 'f) Tgf4000Simulator \<Rightarrow> int" where
  "get_channel self = channel self"

definition set_waveform_type ::
  "'f pyval \<Rightarrow> ('t, 'f) Tgf4000Simulator \<Rightarrow> error option \<times> ('t, 'f) Tgf4000Simulator" where
  "set_waveform_type v self =
     (case setitem (waveform_type self) (get_channel self - 1) v of
        Inl e \<Rightarrow> (Some e, self)
      | Inr l \<Rightarrow> (None, self\<lparr>waveform_type := l\<rparr>))"

definition get_waveform_type :: "('t, 'f) Tgf4000Simulator \<Rightarrow> error + 'f pyval" where
  "get_waveform_type self = getitem (waveform_type self) (get_channel self - 1)"

text \<open>
  \<^verbatim>\<open>set_output_load\<close> assigns the load to the attribute itself,
  \<^verbatim>\<open>self.output_load = load\<close>, where the other setters assign to the item of the
  channel.
\<close>

definition set_output_load ::
  "'f pyval \<Rightarrow> ('t, 'f) Tgf4000Simulator \<Rightarrow> error option \<times> ('t, 'f) Tgf4000Simulator" where
  "set_output_load load self = (None, self\<lparr>output_load := load\<rparr>)"

definition get_output_load :: "('t, 'f) Tgf4000Simulator \<Rightarrow> error + 'f pyval" where
  "get_output_load self = getitem (output_load self) (get_channel self - 1)"

definition set_amplitude ::
  "'f pyval \<Rightarrow> ('t, 'f) Tgf4000Simulator \<Rightarrow> error option \<times> ('t, 'f) Tgf4000Simulator" where
  "set_amplitude v self =
     (case setitem (amplitude self) (get_channel self - 1) v of
        Inl e \<Rightarrow> (Some e, self)
      | Inr l \<Rightarrow> (None, self\<lparr>amplitude := l\<rparr>))"

definition get_amplitude :: "('t, 'f) Tgf4000Simulator \<Rightarrow> error + 'f pyval" where
  "get_amplitude self = getitem (amplitude self) (get_channel self - 1)"

definition set_dc_offset ::
  "'f pyval \<Rightarrow> ('t, 'f) Tgf4000Simulator \<Rightarrow> error option \<times> ('t, 'f) Tgf4000Simulator" where
  "set_dc_offset v self =
     (case setitem (dc_offset self) (get_channel self - 1) v of
        Inl e \<Rightarrow> (Some e, self)
      | Inr l \<Rightarrow> (None, self\<lparr>dc_offset := l\<rparr>))"

definition get_dc_offset :: "('t, 'f) Tgf4000Simulator \<Rightarrow> error + 'f pyval" where
  "get_dc_offset self = getitem (dc_offset self) (get_channel self - 1)"

definition set_duty_cycle ::
  "'f pyval \<Rightarrow> ('t, 'f) Tgf4000Simulator \<Rightarrow> error option \<times> ('t, 'f) Tgf4000Simulator" where
  "set_duty_cycle v self =
     (case setitem (duty_cycle self) (get_channel self - 1) v of
        Inl e \<Rightarrow> (Some e, self)
      | Inr l \<Rightarrow> (None, self\<lparr>duty_cycle := l\<rparr>))"

definition get_duty_cycle :: "('t, 'f) Tgf4000Simulator \<Rightarrow> error + 'f pyval" where
  "get_duty_cycle self = getitem (duty_cycle self) (get_channel self - 1)"

definition set_frequency ::
  "'f pyval \<Rightarrow> ('t, 'f) Tgf4000Simulator \<Rightarrow> error option \<times> ('t, 'f) Tgf4000Simulator" where
  "set_frequency v self =
     (case setitem (frequency self) (get_channel self - 1) v of
        Inl e \<Rightarrow> (Some e, self)
      | Inr l \<Rightarrow> (None, self\<lparr>frequency := l\<rparr>))"

definition get_frequency :: "('t, 'f) Tgf4000Simulator \<Rightarrow> error + 'f pyval" where
  "get_frequency self = getitem (frequency self) (get_channel self - 1)"

definition set_output_status ::
  "'f pyval \<Rightarrow> ('t, 'f) Tgf4000Simulator \<Rightarrow> error option \<times> ('t, 'f) Tgf4000Simulator" where
  "set_output_status v self =
     (case setitem (output_status self) (get_channel self - 1) v of
        Inl e \<Rightarrow> (Some e, self)
      | Inr l \<Rightarrow> (None, self\<lparr>output_status := l\<rparr>))"

definition get_output_status :: "('t, 'f) Tgf4000Simulator \<Rightarrow> error + 'f pyval" where
  "get_output_status self = getitem (output_status self) (get_channel self - 1)"

definition Simulator_connect :: "('t, 'f) Tgf4000Simulator \<Rightarrow> ('t, 'f) Tgf4000Simulator" where
  "Simulator_connect self = self\<lparr>is_connected' := True\<rparr>"

definition Simulator_disconnect :: "('t, 'f) Tgf4000Simulator \<Rightarrow> ('t, 'f) Tgf4000Simulator" where
  "Simulator_disconnect self = self\<lparr>is_connected' := False\<rparr>"

definition Simulator_is_connected :: "('t, 'f) Tgf4000Simulator \<Rightarrow> bool" where
  "Simulator_is_connected self = is_connected' self"

definition Simulator_is_simulator :: "('t, 'f) Tgf4000Simulator \<Rightarrow> bool" where
  "Simulator_is_simulator self = True"

text \<open>
  A simulator as \<^verbatim>\<open>__init__\<close> leaves it, for a device that the settings know.
\<close>

definition a_simulator :: "(nat, int) Tgf4000Simulator" where
  "a_simulator =
     \<lparr>interface_device_id = lit ''TGF4000'',
      ethernet_interface =
        \<lparr>hostname = Some (lit ''localhost''), port = Some 9221,
         device_id = Some (lit ''TGF4000''), sock = None, is_connection_open = False,
         read_timeout = 60\<rparr>,
      is_connected' = True, channel = - 1,
      waveform_type = PyList [PyNone, PyNone], output_load = PyList [PyNone, PyNone],
      amplitude = PyList [PyNone, PyNone], dc_offset = PyList [PyNone, PyNone],
      duty_cycle = PyList [PyNone, PyNone], frequency = PyList [PyNone, PyNone],
      output_status = PyList [PyStr (lit ''OFF''), PyStr (lit ''OFF'')],
      arb = PyList [PyNone, PyNone],
      arb1 = PyNone, arb2 = PyNone, arb3 = PyNone, arb4 = PyNone,
      counter_status = PyList [PyStr (lit ''OFF''), PyStr (lit ''OFF'')],
      counter_source = PyList [PyStr (lit ''AC''), PyStr (lit ''AC'')],
      counter_type = PyList [PyStr (lit ''FREQUENCY''), PyStr (lit ''FREQUENCY'')]\<rparr>"

subsection \<open>Connecting the transport\<close>

text \<open>
  The network is the environment of \<^verbatim>\<open>connect()\<close>: \<open>new_socket\<close> is the socket that
  \<^verbatim>\<open>socket.socket\<close> returns (\<open>None\<close> when it raises \<^verbatim>\<open>socket.error\<close>), \<open>connecting\<close>
  the fault that \<^verbatim>\<open>sock.connect\<close> meets, if any. The method \<^verbatim>\<open>query\<close> is inherited from
  \<^verbatim>\<open>DeviceTransport\<close> of \<^verbatim>\<open>egse.device\<close>, which the sources do not hold: it is a
  parameter \<open>query\<close> of \<^verbatim>\<open>is_connected\<close> and \<^verbatim>\<open>connect\<close>. \<open>DeviceTimeoutError\<close> and
  \<open>DeviceConnectionError\<close> are kinds of \<^verbatim>\<open>DeviceError\<close> of that module, and no kinds of
  the built-in \<^verbatim>\<open>ConnectionError\<close>.
\<close>

datatype connect_fault = Refused | ConnectTimedOut | AddressInfo | HostAddress | OtherOSError

record 't network =
  new_socket :: "'t socket option"
  connecting :: "connect_fault option"

type_synonym 't query =
  "pystr \<Rightarrow> 't Tgf4000EthernetInterface \<Rightarrow> (error + reply) \<times> 't Tgf4000EthernetInterface"

definition IDENTIFICATION_QUERY :: pystr where
  "IDENTIFICATION_QUERY = lit ''*IDN?''"

text \<open>\<^verbatim>\<open>sub in s\<close> for two strings.\<close>

fun contains :: "pystr \<Rightarrow> pystr \<Rightarrow> bool" where
  "contains sub [] = (sub = [])"
| "contains sub (c # cs) = (take (length sub) (c # cs) = sub \<or> contains sub cs)"

definition DeviceError :: "error \<Rightarrow> bool" where
  "DeviceError e = (e = DeviceTimeoutError \<or> e = DeviceConnectionError)"

text \<open>
  \<^verbatim>\<open>disconnect()\<close>: any exception of the closing becomes a \<open>DeviceConnectionError\<close>;
  this is the case of a connection that is marked open and has no socket.
\<close>

definition disconnect ::
  "'t Tgf4000EthernetInterface \<Rightarrow> error option \<times> 't Tgf4000EthernetInterface" where
  "disconnect self =
     (if is_connection_open self
      then (case sock self of
              None \<Rightarrow> (Some DeviceConnectionError, self)
            | Some s \<Rightarrow> (None, self\<lparr>is_connection_open := False\<rparr>))
      else (None, self))"

text \<open>The two ways in which \<^verbatim>\<open>is_connected()\<close> disconnects and returns \<^verbatim>\<open>False\<close>.\<close>

definition give_up ::
  "'t Tgf4000EthernetInterface \<Rightarrow> (error + bool) \<times> 't Tgf4000EthernetInterface" where
  "give_up self =
     (case disconnect self of
        (Some e, self') \<Rightarrow> (Inl e, self')
      | (None, self') \<Rightarrow> (Inr False, self'))"

definition failed_query ::
  "error \<Rightarrow> 't Tgf4000EthernetInterface \<Rightarrow> (error + bool) \<times> 't Tgf4000EthernetInterface" where
  "failed_query e self = (if DeviceError e then give_up self else (Inl e, self))"

text \<open>
  \<^verbatim>\<open>is_connected()\<close>: the identification is queried twice, once to be printed and
  once to be split at the commas into the manufacturer, the model and the rest.
\<close>

definition is_connected ::
  "'t query \<Rightarrow> 't Tgf4000EthernetInterface \<Rightarrow> (error + bool) \<times> 't Tgf4000EthernetInterface" where
  "is_connected query self =
     (if \<not> is_connection_open self then (Inr False, self)
      else (case query IDENTIFICATION_QUERY self of
              (Inl e, self) \<Rightarrow> failed_query e self
            | (Inr printed, self) \<Rightarrow>
                (case query IDENTIFICATION_QUERY self of
                   (Inl e, self) \<Rightarrow> failed_query e self
                 | (Inr (ReplyBytes b), self) \<Rightarrow> (Inl TypeError, self)
                 | (Inr (ReplyStr answer), self) \<Rightarrow>
                     (case split (lit '','') answer of
                        manufacturer # model # rest \<Rightarrow>
                          if \<not> contains (lit ''THURLBY THANDAR'') manufacturer
                             \<or> \<not> contains (lit ''TGF4'') model
                          then give_up self
                          else (Inr True, self)
                      | _ \<Rightarrow> (Inl ValueError, self)))))"

text \<open>
  \<^verbatim>\<open>connect()\<close>. The timeout of the socket is 3 seconds while it connects and is set
  back to blocking only when the connection is made.
\<close>

definition connect ::
  "('t::numeral) query \<Rightarrow> 't network \<Rightarrow> 't Tgf4000EthernetInterface
   \<Rightarrow> error option \<times> 't Tgf4000EthernetInterface" where
  "connect query net self =
     (if is_connection_open self then (None, self)
      else if hostname self = None \<or> hostname self = Some [] then (Some ValueError, self)
      else if port self = None \<or> port self = Some 0 then (Some ValueError, self)
      else (case new_socket net of
              None \<Rightarrow> (Some DeviceConnectionError, self)
            | Some s \<Rightarrow>
                (case connecting net of
                   Some ConnectTimedOut \<Rightarrow>
                     (Some DeviceTimeoutError, self\<lparr>sock := Some (settimeout (Some 3) s)\<rparr>)
                 | Some f \<Rightarrow>
                     (Some DeviceConnectionError, self\<lparr>sock := Some (settimeout (Some 3) s)\<rparr>)
                 | None \<Rightarrow>
                     (case is_connected query
                             (self\<lparr>sock := Some (settimeout None (settimeout (Some 3) s)),
                                   is_connection_open := True\<rparr>) of
                        (Inl e, self) \<Rightarrow> (Some e, self)
                      | (Inr True, self) \<Rightarrow> (None, self)
                      | (Inr False, self) \<Rightarrow> (Some DeviceConnectionError, self)))))"

subsection \<open>The controller\<close>

text \<open>
  The controller holds one more Ethernet interface, under the two names
  \<^verbatim>\<open>self.transport\<close> and \<^verbatim>\<open>self.tgf4000\<close>.
\<close>

record 't Tgf4000Controller = "'t Tgf4000Interface" +
  transport :: "'t Tgf4000EthernetInterface"

definition Tgf4000Controller_init ::
  "device_settings \<Rightarrow> pystr \<Rightarrow> error + ('t::numeral) Tgf4000Controller" where
  "Tgf4000Controller_init DEVICE_SETTINGS device_id' =
     (case Tgf4000Interface_init DEVICE_SETTINGS device_id' of
        Inl e \<Rightarrow> Inl e
      | Inr base \<Rightarrow>
          (case EthernetInterface_init DEVICE_SETTINGS None None (Some device_id') 60 of
             Inl e \<Rightarrow> Inl e
           | Inr t \<Rightarrow>
               Inr \<lparr>interface_device_id = interface_device_id base,
                    ethernet_interface = ethernet_interface base,
                    transport = t\<rparr>))"

definition Controller_is_simulator :: "'t Tgf4000Controller \<Rightarrow> bool" where
  "Controller_is_simulator self = False"

definition Controller_connect ::
  "('t::numeral) query \<Rightarrow> 't network \<Rightarrow> 't Tgf4000Controller
   \<Rightarrow> error option \<times> 't Tgf4000Controller" where
  "Controller_connect query net self =
     (case connect query net (transport self) of (r, t) \<Rightarrow> (r, self\<lparr>transport := t\<rparr>))"

section \<open>tgf4000\_protocol: the command protocol\<close>

text \<open>
  The device behind the protocol is an object of one of the two classes; a call of
  \<^verbatim>\<open>is_simulator()\<close> on it goes to the method of its class.
\<close>

datatype ('t, 'f) device =
    Simulator "('t, 'f) Tgf4000Simulator"
  | Controller "'t Tgf4000Controller"

fun is_simulator :: "('t, 'f) device \<Rightarrow> bool" where
  "is_simulator (Simulator s) = Simulator_is_simulator s"
| "is_simulator (Controller c) = Controller_is_simulator c"

record ('t, 'f, 'h) Tgf4000Protocol =
  hk_conversion_table :: "'h option"
  simulator :: bool
  tgf4000 :: "('t, 'f) device"

text \<open>
  \<^verbatim>\<open>Tgf4000Protocol.__init__\<close>. What \<^verbatim>\<open>read_conversion_dict\<close> returns or raises is a
  parameter, its code being outside of the sources; a \<^verbatim>\<open>SetupError\<close> leaves the table
  \<^verbatim>\<open>None\<close>. Of the exceptions of \<^verbatim>\<open>connect()\<close> only a \<^verbatim>\<open>ConnectionError\<close> is caught, with a
  warning; any other ends the construction.
\<close>

definition Tgf4000Protocol_init ::
  "error + 'h \<Rightarrow> ('t::numeral) query \<Rightarrow> 't network \<Rightarrow> device_settings \<Rightarrow> pystr \<Rightarrow> bool
   \<Rightarrow> error + ('t, 'f, 'h) Tgf4000Protocol" where
  "Tgf4000Protocol_init read_conversion_dict query net DEVICE_SETTINGS device_id' simulator' =
     (case (case read_conversion_dict of
              Inl SetupError \<Rightarrow> Inr None
            | Inl e \<Rightarrow> Inl e
            | Inr table \<Rightarrow> Inr (Some table)) of
        Inl e \<Rightarrow> Inl e
      | Inr table \<Rightarrow>
          if simulator'
          then (case Tgf4000Simulator_init DEVICE_SETTINGS device_id' of
                  Inl e \<Rightarrow> Inl e
                | Inr s \<Rightarrow>
                    Inr \<lparr>hk_conversion_table = table, simulator = simulator',
                         tgf4000 = Simulator (Simulator_connect s)\<rparr>)
          else (case Tgf4000Controller_init DEVICE_SETTINGS device_id' of
                  Inl e \<Rightarrow> Inl e
                | Inr c \<Rightarrow>
                    (case Controller_connect query net c of
                       (None, c') \<Rightarrow>
                         Inr \<lparr>hk_conversion_table = table, simulator = simulator',
                              tgf4000 = Controller c'\<rparr>
                     | (Some ConnectionError, c') \<Rightarrow>
                         Inr \<lparr>hk_conversion_table = table, simulator = simulator',
                              tgf4000 = Controller c'\<rparr>
                     | (Some e, c') \<Rightarrow> Inl e)))"

definition get_device :: "('t, 'f, 'h) Tgf4000Protocol \<Rightarrow> ('t, 'f) device" where
  "get_device self = tgf4000 self"

text \<open>
  The settings of one device, a network on which the device answers the
  identification query twice, and a query that is a transaction of the transport.
\<close>

definition some_settings :: device_settings where
  "some_settings =
     [lit ''TGF4000'' \<mapsto> \<lparr>HOSTNAME = Some (lit ''localhost''), PORT = Some 9221\<rparr>]"

definition identification :: bytes where
  "identification = map of_nat (lit ''THURLBY THANDAR, TGF4162, 527758, 01.00-02.10-01.20'') @ [13, 10]"

definition a_network :: "nat network" where
  "a_network =
     \<lparr>new_socket = Some (peer [Data identification, Data identification] []),
      connecting = None\<rparr>"

section \<open>Properties of the transport\<close>



lemma recv_timeout_kept: "recv n s = (r, s') \<Longrightarrow> sock_timeout s' = sock_timeout s"
  by (auto simp: recv_def Let_def split: list.splits recv_event.splits if_splits)

lemma recv_sent_kept: "recv n s = (r, s') \<Longrightarrow> sent s' = sent s \<and> send_faults s' = send_faults s"
  by (auto simp: recv_def Let_def split: list.splits recv_event.splits if_splits)

lemma recv_calls_step: "recv n s = (r, s') \<Longrightarrow> recv_calls s' = Suc (recv_calls s)"
  by (auto simp: recv_def Let_def split: list.splits recv_event.splits if_splits)

lemma read_loop_timeout_kept:
  "read_loop k n d s = (r, s') \<Longrightarrow> sock_timeout s' = sock_timeout s"
proof (induction k arbitrary: n d s)
  case 0
  then show ?case by simp
next
  case (Suc k)
  obtain r1 s1 where r: "recv buf_size s = (r1, s1)" by (cases "recv buf_size s")
  from recv_timeout_kept[OF r] Suc r show ?case
    by (auto split: sum.splits if_splits)
qed

lemma read_loop_sent_kept:
  "read_loop k n d s = (r, s') \<Longrightarrow> sent s' = sent s"
proof (induction k arbitrary: n d s)
  case 0
  then show ?case by simp
next
  case (Suc k)
  obtain r1 s1 where r: "recv buf_size s = (r1, s1)" by (cases "recv buf_size s")
  from recv_sent_kept[OF r] Suc r show ?case
    by (auto split: sum.splits if_splits)
qed

lemma read_loop_calls:
  "read_loop k n d s = (r, s') \<Longrightarrow>
     recv_calls s' \<le> recv_calls s + k \<and> (0 < k \<longrightarrow> recv_calls s < recv_calls s')"
proof (induction k arbitrary: n d s)
  case 0
  then show ?case by simp
next
  case (Suc k)
  obtain r1 s1 where r: "recv buf_size s = (r1, s1)" by (cases "recv buf_size s")
  from recv_calls_step[OF r] Suc r show ?case
    by (fastforce split: sum.splits if_splits)
qed

lemma recv_Data:
  "incoming s = Data d # rest \<Longrightarrow> length d \<le> n \<Longrightarrow>
   recv n s = (Inr d, s\<lparr>incoming := rest, recv_calls := Suc (recv_calls s)\<rparr>)"
  by (simp add: recv_def)

lemma recv_RecvError:
  "incoming s = RecvError # rest \<Longrightarrow>
   recv n s = (Inl OSError, s\<lparr>incoming := rest, recv_calls := Suc (recv_calls s)\<rparr>)"
  by (simp add: recv_def)

lemma recv_RecvTimeout:
  "incoming s = RecvTimeout # rest \<Longrightarrow>
   recv n s = (Inl SocketTimeout, s\<lparr>incoming := rest, recv_calls := Suc (recv_calls s)\<rparr>)"
  by (simp add: recv_def)

lemma recv_Nil:
  "incoming s = [] \<Longrightarrow>
   recv n s = (Inl SocketTimeout, s\<lparr>recv_calls := Suc (recv_calls s)\<rparr>)"
  by (simp add: recv_def)

lemma read_loop_full:
  "full cs \<Longrightarrow> length cs \<le> k \<Longrightarrow> incoming s = map Data cs @ rest \<Longrightarrow>
   read_loop k n d s =
     read_loop (k - length cs) (n + buf_size * length cs) (last (d # cs))
       (s\<lparr>incoming := rest, recv_calls := recv_calls s + length cs\<rparr>)"
proof (induction cs arbitrary: k n d s)
  case Nil
  from Nil(3)[symmetric] show ?case by simp
next
  case (Cons c cs)
  then obtain k' where k: "k = Suc k'" by (cases k) auto
  from Cons.prems have c: "length c = buf_size" and f: "full cs" by (auto simp: full_def)
  let ?s1 = "s\<lparr>incoming := map Data cs @ rest, recv_calls := Suc (recv_calls s)\<rparr>"
  have r: "recv buf_size s = (Inr c, ?s1)"
    using Cons.prems c by (simp add: recv_Data)
  have "read_loop k n d s = read_loop k' (n + length c) c ?s1"
    using r c by (simp add: k)
  also have "\<dots> = read_loop (k' - length cs) (n + length c + buf_size * length cs) (last (c # cs))
       (?s1\<lparr>incoming := rest, recv_calls := recv_calls ?s1 + length cs\<rparr>)"
    using Cons.prems k f by (intro Cons.IH) auto
  finally show ?case using c by (simp add: k add.assoc del: read_loop.simps)
qed

lemma read_loop_ends:
  assumes "full cs" "length cs < k" "incoming s = map Data cs @ ev"
  shows "ev = Data d # rest \<Longrightarrow> length d < buf_size \<Longrightarrow>
           read_loop k n d0 s =
             (Inr (d, n + buf_size * length cs + length d),
              s\<lparr>incoming := rest, recv_calls := Suc (recv_calls s + length cs)\<rparr>)"
    and "ev = RecvTimeout # rest \<Longrightarrow>
           read_loop k n d0 s =
             (Inl SocketTimeout,
              s\<lparr>incoming := rest, recv_calls := Suc (recv_calls s + length cs)\<rparr>)"
    and "ev = RecvError # rest \<Longrightarrow>
           read_loop k n d0 s =
             (Inl OSError,
              s\<lparr>incoming := rest, recv_calls := Suc (recv_calls s + length cs)\<rparr>)"
    and "ev = [] \<Longrightarrow>
           read_loop k n d0 s =
             (Inl SocketTimeout,
              s\<lparr>incoming := [], recv_calls := Suc (recv_calls s + length cs)\<rparr>)"
proof -
  obtain j where j: "k - length cs = Suc j" using assms(2) by (cases "k - length cs") auto
  let ?s = "s\<lparr>incoming := ev, recv_calls := recv_calls s + length cs\<rparr>"
  have step: "read_loop k n d0 s =
      read_loop (Suc j) (n + buf_size * length cs) (last (d0 # cs)) ?s"
    using read_loop_full[OF assms(1) _ assms(3), of k n d0] assms(2) j by simp
  show "ev = Data d # rest \<Longrightarrow> length d < buf_size \<Longrightarrow>
           read_loop k n d0 s =
             (Inr (d, n + buf_size * length cs + length d),
              s\<lparr>incoming := rest, recv_calls := Suc (recv_calls s + length cs)\<rparr>)"
    unfolding step by (simp add: recv_Data)
  show "ev = RecvTimeout # rest \<Longrightarrow>
           read_loop k n d0 s =
             (Inl SocketTimeout,
              s\<lparr>incoming := rest, recv_calls := Suc (recv_calls s + length cs)\<rparr>)"
    unfolding step by (simp add: recv_RecvTimeout)
  show "ev = RecvError # rest \<Longrightarrow>
           read_loop k n d0 s =
             (Inl OSError,
              s\<lparr>incoming := rest, recv_calls := Suc (recv_calls s + length cs)\<rparr>)"
    unfolding step by (simp add: recv_RecvError)
  show "ev = [] \<Longrightarrow>
           read_loop k n d0 s =
             (Inl SocketTimeout,
              s\<lparr>incoming := [], recv_calls := Suc (recv_calls s + length cs)\<rparr>)"
    unfolding step by (simp add: recv_Nil)
qed

lemma read_short:
  assumes "sock self = Some s" "incoming s = map Data cs @ Data d # rest"
    "full cs" "length cs < 100" "length d < buf_size"
  shows "read self =
     (Inr d, self\<lparr>sock := Some (s\<lparr>incoming := rest,
                                       recv_calls := Suc (recv_calls s + length cs)\<rparr>)\<rparr>)"
  using assms
  by (simp add: read_def gettimeout_def settimeout_def
      read_loop_ends(1)[where cs = cs and rest = rest and d = d])

lemma read_timed_out:
  assumes "sock self = Some s" "incoming s = map Data cs @ RecvTimeout # rest"
    "full cs" "length cs < 100"
  shows "read self =
     (Inr [13, 10], self\<lparr>sock := Some (s\<lparr>incoming := rest,
                                       recv_calls := Suc (recv_calls s + length cs)\<rparr>)\<rparr>)"
  using assms
  by (simp add: read_def gettimeout_def settimeout_def
      read_loop_ends(2)[where cs = cs and rest = rest])


lemma read_failed:
  assumes "sock self = Some s" "incoming s = map Data cs @ RecvError # rest"
    "full cs" "length cs < 100"
  shows "read self =
     (Inl OSError, self\<lparr>sock := Some (s\<lparr>incoming := rest,
                                       recv_calls := Suc (recv_calls s + length cs)\<rparr>)\<rparr>)"
  using assms
  by (simp add: read_def gettimeout_def settimeout_def
      read_loop_ends(3)[where cs = cs and rest = rest])

lemma read_frame:
  assumes "sock self = Some s"
  shows "\<exists>r s'. read self = (r, self\<lparr>sock := Some s'\<rparr>) \<and> sock_timeout s' = sock_timeout s
           \<and> sent s' = sent s
           \<and> recv_calls s < recv_calls s' \<and> recv_calls s' \<le> recv_calls s + 100"
proof -
  let ?s1 = "settimeout (Some (read_timeout self)) s"
  obtain r s2 where l: "read_loop 100 0 [] ?s1 = (r, s2)" by (cases "read_loop 100 0 [] ?s1")
  let ?s' = "s2\<lparr>sock_timeout := sock_timeout s\<rparr>"
  have "snd (read self) = self\<lparr>sock := Some ?s'\<rparr>"
    using assms l
    by (simp add: read_def gettimeout_def settimeout_def Let_def
        split: sum.splits error.splits prod.splits)
  then have "read self = (fst (read self), self\<lparr>sock := Some ?s'\<rparr>)"
    by (metis prod.collapse)
  moreover have "sock_timeout ?s' = sock_timeout s" by simp
  moreover have "sent ?s' = sent s"
    using read_loop_sent_kept[OF l] by (simp add: settimeout_def)
  moreover have "recv_calls s < recv_calls ?s' \<and> recv_calls ?s' \<le> recv_calls s + 100"
    using read_loop_calls[OF l] by (simp add: settimeout_def)
  ultimately show ?thesis by blast
qed



text \<open>
  Claim C1. The claim is that \<^verbatim>\<open>read()\<close> returns every byte of the transaction. On a
  reply of a full chunk of 2048 bytes followed by the three bytes \<^verbatim>\<open>B\r\n\<close>, the code
  returns the three bytes of the last chunk only: each pass of the loop overwrites
  \<^verbatim>\<open>data\<close>, and only the count \<^verbatim>\<open>n_total\<close> is accumulated.
\<close>

theorem read_returns_last_chunk_only:
  "fst (read (connected (peer [Data (replicate 2048 65), Data [66, 13, 10]] []))) =
     Inr [66, 13, 10]
   \<and> [66, 13, 10] \<noteq> replicate 2048 65 @ [66, 13, 10 :: byte]"
proof -
  let ?s = "peer [Data (replicate 2048 65), Data [66, 13, 10]] []"
  have "read (connected ?s) =
     (Inr [66, 13, 10], (connected ?s)\<lparr>sock := Some (?s\<lparr>incoming := [],
          recv_calls := Suc (recv_calls ?s + length [replicate 2048 (65::byte)])\<rparr>)\<rparr>)"
    by (rule read_short[where cs = "[replicate 2048 65]"])
      (simp_all add: connected_def peer_def full_def buf_size_def)
  moreover have "length [66, 13, 10 :: byte] \<noteq> length (replicate 2048 65 @ [66, 13, 10 :: byte])"
    by simp
  ultimately show ?thesis by (metis fst_conv)
qed


lemma sendall_fault:
  "send_faults s = Some f # fs \<Longrightarrow> sendall data s = (Some f, s\<lparr>send_faults := fs\<rparr>)"
  by (simp add: sendall_def)

lemma sendall_ok:
  "send_ok s \<Longrightarrow>
   sendall data s = (None, s\<lparr>send_faults := tl (send_faults s), sent := sent s @ [data]\<rparr>)"
  by (cases s) (auto simp: sendall_def send_ok_def split: list.splits option.splits)

lemma write_fault:
  "sock self = Some s \<Longrightarrow> encode (terminated c) = Some data \<Longrightarrow>
   send_faults s = Some f # fs \<Longrightarrow>
   fst (write' c self) = Some (translate (is_connection_open self) (raised f))"
  by (simp add: write'_def sendall_fault)

lemma trans_fault:
  "sock self = Some s \<Longrightarrow> encode (terminated c) = Some data \<Longrightarrow>
   send_faults s = Some f # fs \<Longrightarrow>
   fst (trans' c self) = Inl (translate (is_connection_open self) (raised f))"
  by (simp add: trans'_def sendall_fault)

lemma trans_recv_failed:
  assumes "sock self = Some s" "encode (terminated c) = Some data" "send_ok s"
    "full cs" "length cs < 100" "incoming s = map Data cs @ RecvError # rest"
  shows "fst (trans' c self) = Inl DeviceConnectionError"
proof -
  let ?s = "s\<lparr>send_faults := tl (send_faults s), sent := sent s @ [data]\<rparr>"
  have "fst (read (self\<lparr>sock := Some ?s\<rparr>)) = Inl OSError"
    using read_failed[where self = "self\<lparr>sock := Some ?s\<rparr>" and s = ?s and cs = cs and rest = rest]
      assms(4-6) by simp
  then obtain self' where "read (self\<lparr>sock := Some ?s\<rparr>) = (Inl OSError, self')"
    by (cases "read (self\<lparr>sock := Some ?s\<rparr>)") auto
  then show ?thesis
    using assms(1-3) by (simp add: trans'_def sendall_ok)
qed

text \<open>
  Claim C2, as amended. A socket timeout of \<^verbatim>\<open>sendall\<close> makes \<^verbatim>\<open>write\<close> and \<^verbatim>\<open>trans\<close>
  raise \<open>DeviceTimeoutError\<close>, any other socket error of \<^verbatim>\<open>sendall\<close> makes them raise
  \<open>DeviceConnectionError\<close>, and so does, for \<^verbatim>\<open>trans\<close>, a socket error other than a
  timeout while the reply is received. \<^verbatim>\<open>read()\<close> translates nothing: a timeout of
  \<^verbatim>\<open>recv\<close> makes it return \<^verbatim>\<open>b"\r\n"\<close>, and any other socket error of \<^verbatim>\<open>recv\<close> reaches
  its caller as it is.
\<close>

theorem socket_errors_translated:
  assumes "sock self = Some s" "encode (terminated c) = Some data"
  shows "(\<forall>fs. send_faults s = Some TimedOut # fs \<longrightarrow>
            fst (write' c self) = Some DeviceTimeoutError
            \<and> fst (trans' c self) = Inl DeviceTimeoutError)
     \<and> (\<forall>fs. send_faults s = Some Failed # fs \<longrightarrow>
            fst (write' c self) = Some DeviceConnectionError
            \<and> fst (trans' c self) = Inl DeviceConnectionError)
     \<and> (\<forall>cs rest. full cs \<and> length cs < 100 \<and> incoming s = map Data cs @ RecvError # rest \<longrightarrow>
            fst (read self) = Inl OSError
            \<and> (send_ok s \<longrightarrow> fst (trans' c self) = Inl DeviceConnectionError))
     \<and> (\<forall>cs rest. full cs \<and> length cs < 100 \<and> incoming s = map Data cs @ RecvTimeout # rest \<longrightarrow>
            fst (read self) = Inr [13, 10])"
proof (intro conjI allI impI)
  fix fs assume "send_faults s = Some TimedOut # fs"
  then show "fst (write' c self) = Some DeviceTimeoutError"
    and "fst (trans' c self) = Inl DeviceTimeoutError"
    using write_fault[OF assms] trans_fault[OF assms] by simp_all
next
  fix fs assume "send_faults s = Some Failed # fs"
  then show "fst (write' c self) = Some DeviceConnectionError"
    and "fst (trans' c self) = Inl DeviceConnectionError"
    using write_fault[OF assms] trans_fault[OF assms] by simp_all
next
  fix cs rest
  assume a: "full cs \<and> length cs < 100 \<and> incoming s = map Data cs @ RecvError # rest"
  then show "fst (read self) = Inl OSError"
    using read_failed[OF assms(1), of cs rest] by simp
  assume "send_ok s"
  with a show "fst (trans' c self) = Inl DeviceConnectionError"
    using trans_recv_failed[OF assms] by blast
next
  fix cs rest
  assume "full cs \<and> length cs < 100 \<and> incoming s = map Data cs @ RecvTimeout # rest"
  then show "fst (read self) = Inr [13, 10]"
    using read_timed_out[OF assms(1), of cs rest] by simp
qed



lemma trans_recv_timed_out:
  assumes "sock self = Some s" "encode (terminated c) = Some data" "send_ok s"
    "full cs" "length cs < 100" "incoming s = map Data cs @ RecvTimeout # rest"
  shows "fst (trans' c self) = Inr (ReplyStr [])"
proof -
  let ?s = "s\<lparr>send_faults := tl (send_faults s), sent := sent s @ [data]\<rparr>"
  have "fst (read (self\<lparr>sock := Some ?s\<rparr>)) = Inr [13, 10]"
    using read_timed_out[where self = "self\<lparr>sock := Some ?s\<rparr>" and s = ?s and cs = cs and rest = rest]
      assms(4-6) by simp
  then obtain self' where "read (self\<lparr>sock := Some ?s\<rparr>) = (Inr [13, 10], self')"
    by (cases "read (self\<lparr>sock := Some ?s\<rparr>)") auto
  then show ?thesis
    using assms(1-3) by (simp add: trans'_def sendall_ok rstrip_def isspace_def)
qed

text \<open>
  Claim C2 as stated fails where the peer stays silent: \<^verbatim>\<open>read()\<close> returns
  \<^verbatim>\<open>b"\r\n"\<close> and \<^verbatim>\<open>trans\<close> returns the empty string, both normally, where the claim has a
  \<open>DeviceTimeoutError\<close>.
\<close>

theorem read_absorbs_timeout:
  "fst (read (connected (peer [RecvTimeout] []))) = Inr [13, 10]
   \<and> fst (trans' (lit ''*IDN?'') (connected (peer [RecvTimeout] []))) = Inr (ReplyStr [])"
proof -
  let ?s = "peer [RecvTimeout] []"
  have s: "sock (connected ?s) = Some ?s" by (simp add: connected_def)
  have i: "incoming ?s = map Data [] @ RecvTimeout # []" by (simp add: peer_def)
  have e: "encode (terminated (lit ''*IDN?'')) = Some [42, 73, 68, 78, 63, 10]"
    by (simp add: terminated_def lit_def endswith_def LF_def utf8_encode_cp_def)
  have "fst (read (connected ?s)) = Inr [13, 10]"
    using read_timed_out[OF s i] by (simp add: full_def)
  moreover have "fst (trans' (lit ''*IDN?'') (connected ?s)) = Inr (ReplyStr [])"
    by (rule trans_recv_timed_out[OF s e _ _ _ i]) (simp_all add: full_def send_ok_def peer_def)
  ultimately show ?thesis by simp
qed

theorem socket_errors_translated_witness:
  "sock (connected (peer [RecvError] [Some TimedOut])) = Some (peer [RecvError] [Some TimedOut])
   \<and> sock (connected (peer [RecvTimeout] [Some Failed])) = Some (peer [RecvTimeout] [Some Failed])
   \<and> sock (connected (peer [RecvError] [])) = Some (peer [RecvError] [])
   \<and> encode (terminated (lit ''*IDN?'')) = Some [42, 73, 68, 78, 63, 10]
   \<and> fst (write' (lit ''*IDN?'') (connected (peer [RecvError] [Some TimedOut]))) =
        Some DeviceTimeoutError
   \<and> fst (trans' (lit ''*IDN?'') (connected (peer [RecvError] [Some TimedOut]))) =
        Inl DeviceTimeoutError
   \<and> fst (write' (lit ''*IDN?'') (connected (peer [RecvTimeout] [Some Failed]))) =
        Some DeviceConnectionError
   \<and> fst (trans' (lit ''*IDN?'') (connected (peer [RecvTimeout] [Some Failed]))) =
        Inl DeviceConnectionError
   \<and> fst (read (connected (peer [RecvError] []))) = Inl OSError
   \<and> fst (trans' (lit ''*IDN?'') (connected (peer [RecvError] []))) = Inl DeviceConnectionError
   \<and> fst (read (connected (peer [RecvTimeout] [Some Failed]))) = Inr [13, 10]"
proof -
  let ?a = "peer [RecvError] [Some TimedOut]"
  let ?b = "peer [RecvTimeout] [Some Failed]"
  let ?c = "peer [RecvError] []"
  have sa: "sock (connected ?a) = Some ?a" and sb: "sock (connected ?b) = Some ?b"
    and sc: "sock (connected ?c) = Some ?c"
    by (simp_all add: connected_def)
  have e: "encode (terminated (lit ''*IDN?'')) = Some [42, 73, 68, 78, 63, 10]"
    by (simp add: terminated_def lit_def endswith_def LF_def utf8_encode_cp_def)
  have fa: "send_faults ?a = Some TimedOut # []" and fb: "send_faults ?b = Some Failed # []"
    by (simp_all add: peer_def)
  have ic: "full [] \<and> length ([] :: bytes list) < 100 \<and> incoming ?c = map Data [] @ RecvError # []"
    and ib: "full [] \<and> length ([] :: bytes list) < 100 \<and> incoming ?b = map Data [] @ RecvTimeout # []"
    and oc: "send_ok ?c"
    by (simp_all add: peer_def full_def send_ok_def)
  from socket_errors_translated[OF sa e] fa
  have 1: "fst (write' (lit ''*IDN?'') (connected ?a)) = Some DeviceTimeoutError
      \<and> fst (trans' (lit ''*IDN?'') (connected ?a)) = Inl DeviceTimeoutError"
    by blast
  from socket_errors_translated[OF sb e] fb ib
  have 2: "fst (write' (lit ''*IDN?'') (connected ?b)) = Some DeviceConnectionError
      \<and> fst (trans' (lit ''*IDN?'') (connected ?b)) = Inl DeviceConnectionError
      \<and> fst (read (connected ?b)) = Inr [13, 10]"
    by blast
  from socket_errors_translated[OF sc e] ic oc
  have 3: "fst (read (connected ?c)) = Inl OSError
      \<and> fst (trans' (lit ''*IDN?'') (connected ?c)) = Inl DeviceConnectionError"
    by blast
  from sa sb sc e 1 2 3 show ?thesis by blast
qed


lemma endswith_one: "endswith xs [a] \<longleftrightarrow> xs \<noteq> [] \<and> last xs = a"
proof (cases xs rule: rev_cases)
  case Nil
  then show ?thesis by (simp add: endswith_def)
next
  case (snoc ys y)
  then show ?thesis by (auto simp: endswith_def)
qed

lemma endswith_two:
  "endswith xs [a, b] \<longleftrightarrow> xs \<noteq> [] \<and> last xs = b \<and> endswith (butlast xs) [a]"
proof (cases xs rule: rev_cases)
  case Nil
  then show ?thesis by (simp add: endswith_def)
next
  case (snoc ys y)
  show ?thesis
  proof (cases ys rule: rev_cases)
    case Nil
    with snoc show ?thesis by (simp add: endswith_def)
  next
    case (snoc zs z)
    with \<open>xs = ys @ [y]\<close> show ?thesis by (auto simp: endswith_def butlast_append)
  qed
qed

lemma byte_of_nat_eq_10: "n < 256 \<Longrightarrow> (of_nat n :: byte) = 10 \<longleftrightarrow> n = 10"
proof
  assume n: "n < 256" and "(of_nat n :: byte) = 10"
  then have "unat (of_nat n :: byte) = unat (10 :: byte)" by simp
  with n show "n = 10" by (simp add: unat_of_nat)
qed simp

lemma utf8_encode_cp_LF:
  assumes "utf8_encode_cp x = Some b"
  shows "b \<noteq> []" and "last b = 10 \<longleftrightarrow> x = 10" and "x = 10 \<Longrightarrow> b = [10]"
proof -
  show "b \<noteq> []" using assms by (auto simp: utf8_encode_cp_def split: if_splits)
  show "x = 10 \<Longrightarrow> b = [10]" using assms by (simp add: utf8_encode_cp_def)
  have m: "(of_nat (128 + k mod 64) :: byte) \<noteq> 10" for k :: nat
    using byte_of_nat_eq_10[of "128 + k mod 64"] by simp
  show "last b = 10 \<longleftrightarrow> x = 10"
    using assms m by (auto simp: utf8_encode_cp_def byte_of_nat_eq_10 split: if_splits)
qed

lemma encode_append:
  "encode (a @ b) =
     (case encode a of None \<Rightarrow> None
      | Some x \<Rightarrow> (case encode b of None \<Rightarrow> None | Some y \<Rightarrow> Some (x @ y)))"
  by (induction a) (auto split: option.splits)

lemma encode_LF: "encode [LF] = Some [10]"
  by (simp add: LF_def utf8_encode_cp_def)

lemma encode_snoc:
  "encode (c @ [x]) = Some bs \<Longrightarrow>
   \<exists>bs' bx. encode c = Some bs' \<and> utf8_encode_cp x = Some bx \<and> bs = bs' @ bx"
  by (auto simp: encode_append split: option.splits)

lemma encode_ends_LF:
  "encode c = Some bs \<Longrightarrow> endswith bs [10] \<longleftrightarrow> endswith c [LF]"
proof (cases c rule: rev_cases)
  case Nil
  assume "encode c = Some bs"
  with Nil show ?thesis by (simp add: endswith_def)
next
  case (snoc c' x)
  assume "encode c = Some bs"
  with snoc obtain bs' bx where
    b: "encode c' = Some bs'" "utf8_encode_cp x = Some bx" "bs = bs' @ bx"
    using encode_snoc by blast
  from utf8_encode_cp_LF[OF b(2)] b(3) snoc show ?thesis
    by (simp add: endswith_one LF_def)
qed

lemma encode_ends_LF_LF:
  assumes "encode c = Some bs"
  shows "endswith bs [10, 10] \<longleftrightarrow> endswith c [LF, LF]"
proof (cases c rule: rev_cases)
  case Nil
  with assms show ?thesis by (simp add: endswith_def)
next
  case (snoc c' x)
  with assms obtain bs' bx where
    b: "encode c' = Some bs'" "utf8_encode_cp x = Some bx" "bs = bs' @ bx"
    using encode_snoc by blast
  show ?thesis
  proof (cases "x = 10")
    case True
    with utf8_encode_cp_LF(3)[OF b(2)] have "bx = [10]" by simp
    with b(3) snoc True encode_ends_LF[OF b(1)] show ?thesis
      by (simp add: endswith_two LF_def)
  next
    case False
    with utf8_encode_cp_LF(1,2)[OF b(2)] b(3) snoc show ?thesis
      by (simp add: endswith_two LF_def)
  qed
qed

lemma encode_terminated:
  assumes "encode c = Some bs"
  shows "encode (terminated c) = Some (if endswith c [LF] then bs else bs @ [10])"
  using assms by (simp add: terminated_def encode_append LF_def utf8_encode_cp_def)

lemma read_keeps_sent:
  assumes "sock self = Some s"
  shows "map_option sent (sock (snd (read self))) = Some (sent s)"
  using read_frame[OF assms] by auto

text \<open>
  Claim C3, as amended. When the command can be encoded and \<^verbatim>\<open>sendall\<close> meets no
  fault, \<^verbatim>\<open>write(c)\<close> and \<^verbatim>\<open>trans(c)\<close> send the encoding of \<open>c\<close> followed by one line
  feed when \<open>c\<close> does not end with a line feed, and the encoding of \<open>c\<close> as it is
  otherwise. The bytes sent end with a line feed; they end with exactly one unless
  \<open>c\<close> itself ends with two.
\<close>

theorem command_sent_with_terminator:
  assumes "sock self = Some s" "send_ok s" "encode c = Some bs"
  shows "\<exists>out. out = (if endswith c [LF] then bs else bs @ [10])
      \<and> map_option sent (sock (snd (write' c self))) = Some (sent s @ [out])
      \<and> map_option sent (sock (snd (trans' c self))) = Some (sent s @ [out])
      \<and> endswith out [10]
      \<and> (\<not> endswith c [LF, LF] \<longrightarrow> \<not> endswith out [10, 10])"
proof -
  define out where "out = (if endswith c [LF] then bs else bs @ [10])"
  have e: "encode (terminated c) = Some out"
    using encode_terminated[OF assms(3)] by (simp add: out_def)
  let ?s = "s\<lparr>send_faults := tl (send_faults s), sent := sent s @ [out]\<rparr>"
  have w: "map_option sent (sock (snd (write' c self))) = Some (sent s @ [out])"
    using assms(1,2) e by (simp add: write'_def sendall_ok)
  have "map_option sent (sock (snd (read (self\<lparr>sock := Some ?s\<rparr>)))) = Some (sent ?s)"
    by (rule read_keeps_sent) simp
  then have t: "map_option sent (sock (snd (trans' c self))) = Some (sent s @ [out])"
    using assms(1,2) e
    by (cases "read (self\<lparr>sock := Some ?s\<rparr>)")
      (auto simp: trans'_def sendall_ok split: sum.splits option.splits)
  have l: "endswith out [10]"
    using encode_ends_LF[OF assms(3)] by (auto simp: out_def endswith_one)
  have "endswith (terminated c) [LF, LF] \<longleftrightarrow> endswith c [LF, LF]"
    by (auto simp: terminated_def endswith_two endswith_one)
  with encode_ends_LF_LF[OF e]
  have o: "\<not> endswith c [LF, LF] \<longrightarrow> \<not> endswith out [10, 10]" by simp
  from w t l o show ?thesis unfolding out_def by blast
qed

theorem command_sent_with_terminator_witness:
  "sock (connected (peer [Data [49, 13, 10]] [])) = Some (peer [Data [49, 13, 10]] [])
   \<and> send_ok (peer [Data [49, 13, 10]] [])
   \<and> encode (lit ''CHN?'') = Some [67, 72, 78, 63]
   \<and> \<not> endswith (lit ''CHN?'') [LF, LF]
   \<and> map_option sent (sock (snd (write' (lit ''CHN?'') (connected (peer [Data [49, 13, 10]] [])))))
       = Some [[67, 72, 78, 63, 10]]
   \<and> map_option sent (sock (snd (trans' (lit ''CHN?'') (connected (peer [Data [49, 13, 10]] [])))))
       = Some [[67, 72, 78, 63, 10]]
   \<and> \<not> endswith [67, 72, 78, 63, 10 :: byte] [10, 10]"
proof -
  let ?s = "peer [Data [49, 13, 10]] []"
  have s: "sock (connected ?s) = Some ?s" by (simp add: connected_def)
  have k: "send_ok ?s" by (simp add: send_ok_def peer_def)
  have e: "encode (lit ''CHN?'') = Some [67, 72, 78, 63]"
    by (simp add: lit_def utf8_encode_cp_def)
  have n: "\<not> endswith (lit ''CHN?'') [LF]" "\<not> endswith (lit ''CHN?'') [LF, LF]"
    by (simp_all add: lit_def endswith_def LF_def)
  have z: "sent ?s = []" by (simp add: peer_def)
  from command_sent_with_terminator[OF s k e] n z s k e show ?thesis
    by simp
qed

text \<open>
  Claim C3 as stated fails on a command that ends with two line feeds: it is sent as
  it is, and the bytes sent end with two line feeds, not with exactly one.
\<close>

theorem two_line_feeds_kept:
  "map_option sent (sock (snd (write' [65, LF, LF] (connected (peer [] [])))))
     = Some [[65, 10, 10]]
   \<and> endswith [65, 10, 10 :: byte] [10, 10]"
  by (simp add: write'_def terminated_def endswith_def LF_def utf8_encode_cp_def
      connected_def peer_def sendall_def)


lemma split_not_Nil: "split sep s \<noteq> []"
  by (induction sep s rule: split.induct) (auto split: list.splits)

lemma join_Cons: "ps \<noteq> [] \<Longrightarrow> join sep (p # ps) = p @ sep @ join sep ps"
  by (cases ps) auto

lemma join_Cons_first: "join sep ((c # p) # ps) = c # join sep (p # ps)"
  by (cases ps) auto

lemma join_split: "join sep (split sep s) = s"
proof (induction sep s rule: split.induct)
  case (1 sep)
  then show ?case by simp
next
  case (2 sep c cs)
  show ?case
  proof (cases "sep \<noteq> [] \<and> take (length sep) (c # cs) = sep")
    case True
    then obtain n where n: "length sep = Suc n" by (cases sep) auto
    from True n have t: "c # take n cs = sep" by simp
    have "join sep (split sep (c # cs)) = sep @ join sep (split sep (drop n cs))"
      using True n by (simp add: join_Cons split_not_Nil)
    also have "\<dots> = sep @ drop n cs" using 2(1)[OF True] n by simp
    also have "\<dots> = c # cs" using t[symmetric] by simp
    finally show ?thesis .
  next
    case False
    obtain p ps where s: "split sep cs = p # ps"
      using split_not_Nil[of sep cs] by (cases "split sep cs") auto
    with False 2(2) show ?thesis by (auto simp: join_Cons_first)
  qed
qed

lemma set_piece_subset: "p \<in> set ps \<Longrightarrow> set p \<subseteq> set (join sep ps)"
  by (induction sep ps rule: join.induct) auto

lemma split_pieces_subset: "p \<in> set (split sep s) \<Longrightarrow> set p \<subseteq> set s"
  using set_piece_subset[of p "split sep s" sep] by (simp add: join_split)

lemma first_piece_prefix: "split sep s = p # ps \<Longrightarrow> \<exists>r. s = p @ r"
  using join_split[of sep s] by (cases ps) auto

lemma split_no_sep:
  "sep \<noteq> [] \<Longrightarrow> p \<in> set (split sep s) \<Longrightarrow> p \<noteq> a @ sep @ b"
proof (induction sep s arbitrary: p a b rule: split.induct)
  case (1 sep)
  then show ?case by simp
next
  case (2 sep c cs)
  show ?case
  proof (cases "sep \<noteq> [] \<and> take (length sep) (c # cs) = sep")
    case True
    with 2(1)[OF True] 2(3,4) show ?thesis by auto
  next
    case False
    obtain q qs where s: "split sep cs = q # qs"
      using split_not_Nil[of sep cs] by (cases "split sep cs") auto
    from first_piece_prefix[OF s] obtain r where r: "cs = q @ r" by blast
    from 2(4) False s have "p = c # q \<or> p \<in> set qs" by auto
    then show ?thesis
    proof
      assume p: "p = c # q"
      show ?thesis
      proof
        assume e: "p = a @ sep @ b"
        show False
        proof (cases a)
          case Nil
          with e p r have "c # cs = sep @ b @ r" by simp
          then have "take (length sep) (c # cs) = sep" by simp
          with False 2(3) show False by simp
        next
          case (Cons x a')
          with e p have "q = a' @ sep @ b" by simp
          moreover have "q \<in> set (split sep cs)" using s by simp
          ultimately show False using 2(2)[OF False 2(3)] by blast
        qed
      qed
    next
      assume "p \<in> set qs"
      then have "p \<in> set (split sep cs)" using s by simp
      then show ?thesis using 2(2)[OF False 2(3)] by blast
    qed
  qed
qed

text \<open>
  Claim C4. \<^verbatim>\<open>unpack_response\<close> returns \<^verbatim>\<open>None\<close> on the empty bytestring. On any other
  it returns a list of strings that is not empty, in which no string holds a carriage
  return, a line feed or the delimiter \<^verbatim>\<open>", "\<close>, and whose strings, put together again
  with the delimiter between them, are the Latin-1 text of the response without its
  carriage returns and line feeds.
\<close>

theorem unpack_response_splits:
  "unpack_response [] = None
   \<and> (response \<noteq> [] \<longrightarrow>
        (\<exists>pieces. unpack_response response = Some pieces \<and> pieces \<noteq> []
           \<and> join (lit '', '') pieces
               = filter (\<lambda>c. c \<noteq> CR \<and> c \<noteq> LF) (latin1_decode response)
           \<and> (\<forall>p \<in> set pieces. CR \<notin> set p \<and> LF \<notin> set p
                 \<and> \<not> (\<exists>a b. p = a @ lit '', '' @ b))))"
proof (intro conjI impI)
  show "unpack_response [] = None" by (simp add: unpack_response_def)
next
  assume r: "response \<noteq> []"
  let ?text = "remove LF (remove CR (latin1_decode response))"
  let ?pieces = "split (lit '', '') ?text"
  have u: "unpack_response response = Some ?pieces"
    using r by (simp add: unpack_response_def)
  have t: "?text = filter (\<lambda>c. c \<noteq> CR \<and> c \<noteq> LF) (latin1_decode response)"
    by (auto simp: remove_def intro: filter_cong)
  have j: "join (lit '', '') ?pieces = filter (\<lambda>c. c \<noteq> CR \<and> c \<noteq> LF) (latin1_decode response)"
    using join_split[of "lit '', ''" ?text] t by simp
  have f: "CR \<notin> set p \<and> LF \<notin> set p \<and> \<not> (\<exists>a b. p = a @ lit '', '' @ b)"
    if "p \<in> set ?pieces" for p
  proof -
    from split_pieces_subset[OF that] have "set p \<subseteq> set ?text" .
    then have "CR \<notin> set p \<and> LF \<notin> set p" by (auto simp: remove_def)
    moreover have "lit '', '' \<noteq> []" by (simp add: lit_def)
    from split_no_sep[OF this that] have "\<not> (\<exists>a b. p = a @ lit '', '' @ b)" by blast
    ultimately show ?thesis by blast
  qed
  from u j f split_not_Nil[of "lit '', ''" ?text]
  show "\<exists>pieces. unpack_response response = Some pieces \<and> pieces \<noteq> []
           \<and> join (lit '', '') pieces
               = filter (\<lambda>c. c \<noteq> CR \<and> c \<noteq> LF) (latin1_decode response)
           \<and> (\<forall>p \<in> set pieces. CR \<notin> set p \<and> LF \<notin> set p
                 \<and> \<not> (\<exists>a b. p = a @ lit '', '' @ b))"
    by blast
qed

theorem unpack_response_splits_witness:
  "[49, 44, 32, 50, 50, 13, 10 :: byte] \<noteq> []
   \<and> unpack_response [49, 44, 32, 50, 50, 13, 10] = Some [[49], [50, 50]]
   \<and> (\<exists>pieces. unpack_response [49, 44, 32, 50, 50, 13, 10] = Some pieces \<and> pieces \<noteq> []
        \<and> join (lit '', '') pieces = [49, 44, 32, 50, 50]
        \<and> (\<forall>p \<in> set pieces. CR \<notin> set p \<and> LF \<notin> set p
              \<and> \<not> (\<exists>a b. p = a @ lit '', '' @ b)))"
proof -
  have n: "[49, 44, 32, 50, 50, 13, 10 :: byte] \<noteq> []" by simp
  have v: "unpack_response [49, 44, 32, 50, 50, 13, 10] = Some [[49], [50, 50]]"
    by (simp add: unpack_response_def latin1_decode_def remove_def lit_def CR_def LF_def)
  have f: "filter (\<lambda>c. c \<noteq> CR \<and> c \<noteq> LF) (latin1_decode [49, 44, 32, 50, 50, 13, 10])
      = [49, 44, 32, 50, 50]"
    by (simp add: latin1_decode_def CR_def LF_def)
  from unpack_response_splits[of "[49, 44, 32, 50, 50, 13, 10]"] n
  have "\<exists>pieces. unpack_response [49, 44, 32, 50, 50, 13, 10] = Some pieces \<and> pieces \<noteq> []
        \<and> join (lit '', '') pieces
            = filter (\<lambda>c. c \<noteq> CR \<and> c \<noteq> LF) (latin1_decode [49, 44, 32, 50, 50, 13, 10])
        \<and> (\<forall>p \<in> set pieces. CR \<notin> set p \<and> LF \<notin> set p
              \<and> \<not> (\<exists>a b. p = a @ lit '', '' @ b))"
    by blast
  then have "\<exists>pieces. unpack_response [49, 44, 32, 50, 50, 13, 10] = Some pieces \<and> pieces \<noteq> []
        \<and> join (lit '', '') pieces = [49, 44, 32, 50, 50]
        \<and> (\<forall>p \<in> set pieces. CR \<notin> set p \<and> LF \<notin> set p
              \<and> \<not> (\<exists>a b. p = a @ lit '', '' @ b))"
    unfolding f .
  with n v show ?thesis by blast
qed


lemma split_plain: "44 \<notin> set f \<Longrightarrow> split [44, 32] f = [f]"
  by (induction f) auto

lemma split_plain_sep:
  "44 \<notin> set f \<Longrightarrow> split [44, 32] (f @ [44, 32] @ r) = f # split [44, 32] r"
  by (induction f) auto

lemma split_join_plain:
  "fs \<noteq> [] \<Longrightarrow> \<forall>f \<in> set fs. 44 \<notin> set f \<Longrightarrow>
   split [44, 32] (join [44, 32] fs) = fs"
proof (induction "[44, 32 :: nat]" fs rule: join.induct)
  case 1
  then show ?case by simp
next
  case (2 p)
  then show ?case by (simp add: split_plain)
next
  case (3 p q ps)
  then show ?case using split_plain_sep[of p "join [44, 32] (q # ps)"] by simp
qed

lemma remove_append: "remove c (a @ b) = remove c a @ remove c b"
  by (simp add: remove_def)

lemma remove_absent: "c \<notin> set p \<Longrightarrow> remove c p = p"
  by (induction p) (auto simp: remove_def)

lemma remove_join_plain:
  "\<forall>f \<in> set fs. c \<notin> set f \<Longrightarrow> c \<notin> set sep \<Longrightarrow>
   remove c (join sep fs) = join sep fs"
  by (induction sep fs rule: join.induct) (auto simp: remove_absent remove_append)

lemma unpack_fields:
  assumes "response \<noteq> []" "list_all plain_field fs" "fs \<noteq> []" "terminator t"
    "latin1_decode response = join (lit '', '') fs @ t"
  shows "unpack_response response = Some fs"
proof -
  have p: "\<forall>f \<in> set fs. 44 \<notin> set f" "\<forall>f \<in> set fs. CR \<notin> set f"
    "\<forall>f \<in> set fs. LF \<notin> set f"
    using assms(2) by (auto simp: plain_field_def list_all_iff)
  have l: "lit '', '' = [44, 32]" by (simp add: lit_def)
  have "remove CR (join [44, 32] fs @ t) = join [44, 32] fs @ remove CR t"
    using remove_join_plain[OF p(2), of "[44, 32]"] by (simp add: remove_append CR_def)
  moreover have "remove LF (remove CR t) = []"
    using assms(4) by (induction t) (auto simp: terminator_def remove_def)
  then have "remove LF (join [44, 32] fs @ remove CR t) = join [44, 32] fs"
    using remove_join_plain[OF p(3), of "[44, 32]"] by (simp add: remove_append LF_def)
  ultimately show ?thesis
    using assms(1,3,5) p(1) by (simp add: unpack_response_def l split_join_plain)
qed

lemma convert_all_map:
  "\<forall>x \<in> set xs. f x = Inr (v x) \<Longrightarrow> convert_all f xs = Inr (map v xs)"
  by (induction xs) auto

lemma to_ascii_ascii: "\<forall>c \<in> set s. c < 128 \<Longrightarrow> to_ascii td s = s"
  by (induction s) auto

lemma scan_digits:
  "\<forall>c \<in> set r. digit_value c < base \<and> c \<noteq> 95 \<Longrightarrow>
   scan base False r ds = Some (ds @ map digit_value r, [])"
  by (induction r arbitrary: ds) auto

lemma foldl_magnitude:
  "list_all is_digit r \<Longrightarrow>
   foldl (\<lambda>acc d. acc * 10 + d) a (map digit_value r) = a * 10 ^ length r + magnitude r"
proof (induction r arbitrary: a)
  case Nil
  then show ?case by simp
next
  case (Cons c r)
  then have "digit_value c = c - 48" by (simp add: digit_value_def is_digit_def)
  with Cons show ?case by (simp add: algebra_simps)
qed

lemma py_int_digits:
  assumes "r \<noteq> []" "list_all is_digit r" "allowed interp (length r)"
  shows "py_int interp 10 r = Inr (int (magnitude r))"
    and "py_int interp 10 (45 # r) = Inr (- int (magnitude r))"
    and "py_int interp 10 (43 # r) = Inr (int (magnitude r))"
proof -
  obtain c r' where r: "r = c # r'" using assms(1) by (cases r) auto
  have d: "\<forall>c \<in> set r. digit_value c < 10 \<and> c \<noteq> 95 \<and> c < 128 \<and> \<not> ascii_space c"
    using assms(2) by (auto simp: list_all_iff is_digit_def digit_value_def ascii_space_def)
  then have c: "c \<noteq> 95" "c \<noteq> 43" "c \<noteq> 45" "\<not> ascii_space c" "c < 128"
    using assms(2) r by (auto simp: is_digit_def)
  have a: "to_ascii (todecimal interp) r = r"
    "to_ascii (todecimal interp) (45 # r) = 45 # r"
    "to_ascii (todecimal interp) (43 # r) = 43 # r"
    using d by (simp_all add: to_ascii_ascii)
  have s: "scan 10 False r [] = Some (map digit_value r, [])"
    using scan_digits[of r 10 "[]"] d by simp
  have f: "foldl (\<lambda>acc d. acc * 10 + d) 0 (map digit_value r) = magnitude r"
    using foldl_magnitude[OF assms(2), of 0] by simp
  have l: "\<not> exceeds_limit interp 10 (length (map digit_value r))"
    using assms(3) by (auto simp: exceeds_limit_def allowed_def)
  show "py_int interp 10 r = Inr (int (magnitude r))"
    unfolding py_int_def a using s f c r l by (simp add: Let_def)
  show "py_int interp 10 (45 # r) = Inr (- int (magnitude r))"
    unfolding py_int_def a using s f c r l by (simp add: Let_def ascii_space_def)
  show "py_int interp 10 (43 # r) = Inr (int (magnitude r))"
    unfolding py_int_def a using s f c r l by (simp add: Let_def ascii_space_def)
qed

lemma digits_of_digits: "list_all is_digit r \<Longrightarrow> digits_of r = length r"
  by (simp add: digits_of_def list_all_iff)

lemma digits_of_signed:
  "c = 43 \<or> c = 45 \<Longrightarrow> list_all is_digit r \<Longrightarrow> digits_of (c # r) = length r"
  by (auto simp: digits_of_def list_all_iff is_digit_def)

lemma py_int_numeral:
  assumes "decimal_numeral s" "allowed interp (digits_of s)"
  shows "py_int interp 10 s = Inr (numeral_value s)"
proof (cases s)
  case Nil
  with assms(1) show ?thesis by (simp add: decimal_numeral_def)
next
  case (Cons c r)
  show ?thesis
  proof (cases "c = 43 \<or> c = 45")
    case True
    with assms(1) Cons have r: "r \<noteq> []" "list_all is_digit r"
      by (auto simp: decimal_numeral_def)
    with assms(2) Cons True have "allowed interp (length r)"
      by (simp add: digits_of_signed)
    from py_int_digits(2,3)[OF r this] True Cons show ?thesis
      by (auto simp: numeral_value_def)
  next
    case False
    with assms(1) Cons have r: "s \<noteq> []" "list_all is_digit s"
      by (auto simp: decimal_numeral_def)
    with assms(2) have "allowed interp (length s)"
      by (simp add: digits_of_digits)
    from py_int_digits(1)[OF r this] False Cons show ?thesis
      by (auto simp: numeral_value_def)
  qed
qed

lemma decimal_numeral_plain: "decimal_numeral s \<Longrightarrow> plain_field s"
  by (cases s)
    (auto simp: decimal_numeral_def plain_field_def is_digit_def list_all_iff CR_def LF_def
      split: if_splits)

lemma single_or_tuple_map:
  "single_or_tuple (map v fs) =
     (if length fs = 1 then Single (v (hd fs)) else Tuple (map v fs))"
proof (cases fs)
  case Nil
  then show ?thesis by (simp add: single_or_tuple_def)
next
  case (Cons f fs)
  then show ?thesis by (cases fs) (simp_all add: single_or_tuple_def)
qed

lemma py_int_too_long:
  assumes "r \<noteq> []" "list_all is_digit r" "\<not> allowed interp (length r)"
  shows "py_int interp 10 r = Inl ValueError"
proof -
  obtain c r' where r: "r = c # r'" using assms(1) by (cases r) auto
  have d: "\<forall>c \<in> set r. digit_value c < 10 \<and> c \<noteq> 95 \<and> c < 128 \<and> \<not> ascii_space c"
    using assms(2) by (auto simp: list_all_iff is_digit_def digit_value_def ascii_space_def)
  then have c: "c \<noteq> 95" "c \<noteq> 43" "c \<noteq> 45" "\<not> ascii_space c" "c < 128"
    using assms(2) r by (auto simp: is_digit_def)
  have a: "to_ascii (todecimal interp) r = r"
    using d by (simp add: to_ascii_ascii)
  have s: "scan 10 False r [] = Some (map digit_value r, [])"
    using scan_digits[of r 10 "[]"] d by simp
  have l: "exceeds_limit interp 10 (length (map digit_value r))"
    using assms(3) by (auto simp: exceeds_limit_def allowed_def binary_base_def)
  show ?thesis
    unfolding py_int_def a using s c r l by (simp add: Let_def)
qed

text \<open>
  Claim C5, as amended. Let a response that is not empty be, read as Latin-1 text, a
  list of fields with \<^verbatim>\<open>", "\<close> between them and optional terminators after them. When
  the fields are decimal numerals with no more digits than the interpreter converts (up
  to 640 digits always, beyond that up to its limit on the conversion of integer
  strings, 4300 digits unless it was changed), \<^verbatim>\<open>parse_ints\<close> returns the value of the
  only field if there is one, and the tuple of the values of the fields, in their
  order, otherwise. \<^verbatim>\<open>parse_floats\<close> does the same with the values that \<^verbatim>\<open>float\<close> gives
  to the fields, when these are free of commas and terminators and \<^verbatim>\<open>float\<close> accepts each
  of them.
\<close>

theorem parse_numerals:
  assumes "response \<noteq> []" "fs \<noteq> []" "terminator t"
    "latin1_decode response = join (lit '', '') fs @ t"
  shows "(list_all (\<lambda>f. decimal_numeral f \<and> allowed interp (digits_of f)) fs \<longrightarrow>
            parse_ints interp response =
              Inr (if length fs = 1 then Single (numeral_value (hd fs))
                   else Tuple (map numeral_value fs)))
       \<and> (list_all (\<lambda>f. plain_field f \<and> py_float f = Inr (v f)) fs \<longrightarrow>
            parse_floats py_float response =
              Inr (if length fs = 1 then Single (v (hd fs))
                   else Tuple (map v fs)))"
proof (intro conjI impI)
  assume n: "list_all (\<lambda>f. decimal_numeral f \<and> allowed interp (digits_of f)) fs"
  then have "list_all plain_field fs"
    by (auto simp: list_all_iff decimal_numeral_plain)
  from unpack_fields[OF assms(1) this assms(2,3,4)]
  have u: "unpack_response response = Some fs" .
  have "convert_all (py_int interp 10) fs = Inr (map numeral_value fs)"
    using n by (intro convert_all_map) (auto simp: list_all_iff py_int_numeral)
  with u show "parse_ints interp response =
      Inr (if length fs = 1 then Single (numeral_value (hd fs))
           else Tuple (map numeral_value fs))"
    by (simp add: parse_ints_def single_or_tuple_map)
next
  assume f: "list_all (\<lambda>f. plain_field f \<and> py_float f = Inr (v f)) fs"
  then have "list_all plain_field fs" by (auto simp: list_all_iff)
  from unpack_fields[OF assms(1) this assms(2,3,4)]
  have u: "unpack_response response = Some fs" .
  have "convert_all py_float fs = Inr (map v fs)"
    using f by (intro convert_all_map) (auto simp: list_all_iff)
  with u show "parse_floats py_float response =
      Inr (if length fs = 1 then Single (v (hd fs)) else Tuple (map v fs))"
    by (simp add: parse_floats_def single_or_tuple_map)
qed

theorem parse_numerals_witness:
  "[49, 50, 44, 32, 45, 51, 13, 10 :: byte] \<noteq> [] \<and> [[49, 50], [45, 51 :: nat]] \<noteq> []
   \<and> terminator [CR, LF]
   \<and> latin1_decode [49, 50, 44, 32, 45, 51, 13, 10]
       = join (lit '', '') [[49, 50], [45, 51]] @ [CR, LF]
   \<and> list_all (\<lambda>f. decimal_numeral f \<and> allowed an_interpreter (digits_of f)) [[49, 50], [45, 51]]
   \<and> list_all (\<lambda>f. plain_field f \<and> (Inr f :: error + pystr) = Inr (id f)) [[49, 50], [45, 51]]
   \<and> parse_ints an_interpreter [49, 50, 44, 32, 45, 51, 13, 10] = Inr (Tuple [12, - 3])
   \<and> parse_floats Inr [49, 50, 44, 32, 45, 51, 13, 10] = Inr (Tuple [[49, 50], [45, 51]])
   \<and> [55 :: byte] \<noteq> [] \<and> terminator []
   \<and> latin1_decode [55] = join (lit '', '') [[55]] @ []
   \<and> list_all (\<lambda>f. decimal_numeral f \<and> allowed an_interpreter (digits_of f)) [[55]]
   \<and> parse_ints an_interpreter [55] = Inr (Single 7)"
proof -
  have a: "[49, 50, 44, 32, 45, 51, 13, 10 :: byte] \<noteq> []" "[[49, 50], [45, 51 :: nat]] \<noteq> []"
    "terminator [CR, LF]"
    "latin1_decode [49, 50, 44, 32, 45, 51, 13, 10]
       = join (lit '', '') [[49, 50], [45, 51]] @ [CR, LF]"
    by (simp_all add: terminator_def latin1_decode_def lit_def CR_def LF_def)
  have d: "list_all (\<lambda>f. decimal_numeral f \<and> allowed an_interpreter (digits_of f)) [[49, 50], [45, 51]]"
    by (simp add: decimal_numeral_def is_digit_def allowed_def digits_of_def)
  have p: "list_all (\<lambda>f. plain_field f \<and> (Inr f :: error + pystr) = Inr (id f)) [[49, 50], [45, 51]]"
    by (simp add: plain_field_def CR_def LF_def)
  have v: "map numeral_value [[49, 50], [45, 51]] = [12, - 3]"
    by (simp add: numeral_value_def)
  from parse_numerals[OF a, of an_interpreter Inr id] d p v
  have 1: "parse_ints an_interpreter [49, 50, 44, 32, 45, 51, 13, 10] = Inr (Tuple [12, - 3])"
    "parse_floats Inr [49, 50, 44, 32, 45, 51, 13, 10] = Inr (Tuple [[49, 50], [45, 51]])"
    by simp_all
  have b: "[55 :: byte] \<noteq> []" "[[55 :: nat]] \<noteq> []" "terminator []"
    "latin1_decode [55] = join (lit '', '') [[55]] @ []"
    by (simp_all add: terminator_def latin1_decode_def)
  have e: "list_all (\<lambda>f. decimal_numeral f \<and> allowed an_interpreter (digits_of f)) [[55]]"
    by (simp add: decimal_numeral_def is_digit_def allowed_def digits_of_def)
  from parse_numerals[OF b, of an_interpreter Inr id] e
  have 2: "parse_ints an_interpreter [55] = Inr (Single 7)"
    by (simp add: numeral_value_def)
  from a d p 1 b e 2 show ?thesis by blast
qed

text \<open>
  Claim C5 as the specification states it, without the bound on the digits, does not
  hold. A response of 4301 characters \<^verbatim>\<open>1\<close> is one field, a decimal numeral, and an
  interpreter with the limit of 4300 digits raises \<^verbatim>\<open>ValueError\<close> in \<^verbatim>\<open>int(item)\<close>, so
  that \<^verbatim>\<open>parse_ints\<close> returns no value.
\<close>

theorem parse_ints_digit_limit:
  "replicate 4301 (49 :: byte) \<noteq> [] \<and> [replicate 4301 (49 :: nat)] \<noteq> [] \<and> terminator []
   \<and> latin1_decode (replicate 4301 49) = join (lit '', '') [replicate 4301 49] @ []
   \<and> list_all decimal_numeral [replicate 4301 49]
   \<and> parse_ints an_interpreter (replicate 4301 49) = Inl ValueError"
proof -
  let ?r = "replicate 4301 (49 :: nat)"
  have a: "replicate 4301 (49 :: byte) \<noteq> []" "[?r] \<noteq> []" "terminator []"
    by (simp_all add: terminator_def)
  have l: "latin1_decode (replicate 4301 49) = join (lit '', '') [?r] @ []"
    by (simp add: latin1_decode_def)
  have g: "list_all is_digit ?r" "?r \<noteq> []"
    by (simp_all add: list_all_iff is_digit_def)
  have d: "list_all decimal_numeral [?r]"
  proof -
    have "?r = 49 # replicate 4300 49"
      using replicate_Suc[of 4300 "49 :: nat"] by (simp del: replicate_Suc)
    with g(1) show ?thesis by (simp add: decimal_numeral_def)
  qed
  then have "list_all plain_field [?r]"
    by (auto simp: list_all_iff decimal_numeral_plain)
  from unpack_fields[OF a(1) this a(2,3) l]
  have u: "unpack_response (replicate 4301 49) = Some [?r]" .
  have "\<not> allowed an_interpreter (length ?r)"
    by (simp add: allowed_def an_interpreter_def)
  from py_int_too_long[OF g(2,1) this]
  have "convert_all (py_int an_interpreter 10) [?r] = Inl ValueError"
    by (simp)
  with u have "parse_ints an_interpreter (replicate 4301 49) = Inl ValueError"
    by (simp add: parse_ints_def)
  with a l d show ?thesis by blast
qed


lemma dropWhile_none: "\<forall>c \<in> set s. \<not> P c \<Longrightarrow> dropWhile P s = s"
  by (cases s) auto

lemma strip_no_space: "\<forall>c \<in> set s. \<not> isspace c \<Longrightarrow> strip s = s"
  by (simp add: strip_def rstrip_def dropWhile_none)

lemma hex_digit_facts:
  assumes "is_hex_digit c"
  shows "\<not> isspace c" "\<not> ascii_space c" "c < 128" "c \<noteq> 95" "c \<noteq> 43" "c \<noteq> 45"
    "c \<noteq> 120" "c \<noteq> 88" "digit_value c = hex_digit c" "hex_digit c < 16"
  using assms
  by (auto simp: is_hex_digit_def isspace_def ascii_space_def digit_value_def hex_digit_def)

lemma foldl_hex_value:
  "\<forall>c \<in> set r. is_hex_digit c \<Longrightarrow>
   foldl (\<lambda>acc d. acc * 16 + d) a (map digit_value r) = a * 16 ^ length r + hex_value r"
proof (induction r arbitrary: a)
  case Nil
  then show ?case by simp
next
  case (Cons c r)
  then show ?case by (simp add: hex_digit_facts(9) algebra_simps)
qed

lemma hex_value_bound: "\<forall>c \<in> set r. is_hex_digit c \<Longrightarrow> hex_value r < 16 ^ length r"
proof (induction r)
  case Nil
  then show ?case by simp
next
  case (Cons c r)
  then have "hex_digit c \<le> 15" and "hex_value r < 16 ^ length r"
    using hex_digit_facts(10)[of c] by auto
  then have "hex_digit c * 16 ^ length r + hex_value r < 15 * 16 ^ length r + 16 ^ length r"
    by (meson add_le_less_mono mult_le_mono1)
  then show ?case by simp
qed

lemma py_int_hex:
  assumes "r \<noteq> []" "\<forall>c \<in> set r. is_hex_digit c"
  shows "py_int interp 16 r = Inr (int (hex_value r))"
proof -
  obtain c r' where r: "r = c # r'" using assms(1) by (cases r) auto
  have h: "is_hex_digit c" using assms(2) r by simp
  have a: "to_ascii (todecimal interp) r = r"
    using assms(2) hex_digit_facts(3) by (simp add: to_ascii_ascii)
  have p: "take 2 r \<noteq> [48, 120]" "take 2 r \<noteq> [48, 88]"
  proof -
    show "take 2 r \<noteq> [48, 120]"
    proof
      assume "take 2 r = [48, 120]"
      then have "120 \<in> set (take 2 r)" by simp
      then have "120 \<in> set r" by (rule in_set_takeD)
      with assms(2) hex_digit_facts(7) show False by blast
    qed
    show "take 2 r \<noteq> [48, 88]"
    proof
      assume "take 2 r = [48, 88]"
      then have "88 \<in> set (take 2 r)" by simp
      then have "88 \<in> set r" by (rule in_set_takeD)
      with assms(2) hex_digit_facts(8) show False by blast
    qed
  qed
  have s: "scan 16 False r [] = Some (map digit_value r, [])"
    using scan_digits[of r 16 "[]"] assms(2) hex_digit_facts(4,9,10) by simp
  have f: "foldl (\<lambda>acc d. acc * 16 + d) 0 (map digit_value r) = hex_value r"
    using foldl_hex_value[OF assms(2), of 0] by simp
  have d: "dropWhile ascii_space r = r"
    using hex_digit_facts(2)[OF h] r by simp
  have t: "take 1 r \<noteq> [95]" "take 1 r \<noteq> [43]" "take 1 r \<noteq> [45]"
    using hex_digit_facts(4,5,6)[OF h] r by simp_all
  show ?thesis
    unfolding py_int_def a d using s f p t assms(1)
    by (simp add: Let_def exceeds_limit_def binary_base_def)
qed

lemma np_int16_signed16: "v < 65536 \<Longrightarrow> np_int16 (int v) = signed16 v"
proof (cases "32768 \<le> v")
  case True
  assume v: "v < 65536"
  have e: "int v + 32768 = (int v - 32768) + 65536" by linarith
  have "(int v + 32768) mod 65536 = (int v - 32768) mod 65536"
    unfolding e by (rule mod_add_self2)
  also have "\<dots> = int v - 32768" using True v by (intro mod_pos_pos_trivial) auto
  finally show ?thesis using True by (simp add: np_int16_def signed16_def)
next
  case False
  then have "(int v + 32768) mod 65536 = int v + 32768"
    by (intro mod_pos_pos_trivial) auto
  with False show ?thesis by (simp add: np_int16_def signed16_def)
qed

lemma hex_loop_all:
  "\<forall>i \<in> set idxs. py_int interp 16 (take 4 (drop (i * 4) s)) = Inr (v i) \<Longrightarrow>
   hex_loop interp s idxs self = (None, self\<lparr>array := array self @ map (\<lambda>i. np_int16 (v i)) idxs\<rparr>)"
  by (induction idxs arbitrary: self) (simp_all add: Let_def)

lemma groups_by_index:
  "map (\<lambda>i. take 4 (drop (i * 4) s)) [0..<length s div 4] = groups_of_4 s"
proof (induction s rule: groups_of_4.induct)
  case (1 a b c d rest)
  have l: "length (a # b # c # d # rest) div 4 = Suc (length rest div 4)"
    by simp
  have u: "[0..<Suc (length rest div 4)] = 0 # map Suc [0..<length rest div 4]"
    using upt_conv_Cons[of 0 "Suc (length rest div 4)"] by (simp only: map_Suc_upt zero_less_Suc)
  have d: "drop (Suc i * 4) (a # b # c # d # rest) = drop (i * 4) rest" for i
  proof -
    have "Suc i * 4 = Suc (Suc (Suc (Suc (i * 4))))" by simp
    then show ?thesis by (simp only: drop_Suc_Cons)
  qed
  have "map (\<lambda>i. take 4 (drop (i * 4) (a # b # c # d # rest))) [0..<length (a # b # c # d # rest) div 4]
      = take 4 (drop (0 * 4) (a # b # c # d # rest))
        # map (\<lambda>i. take 4 (drop (Suc i * 4) (a # b # c # d # rest))) [0..<length rest div 4]"
    unfolding l u by (simp add: comp_def del: upt_Suc mult_Suc)
  also have "\<dots> = [a, b, c, d] # map (\<lambda>i. take 4 (drop (i * 4) rest)) [0..<length rest div 4]"
    unfolding d by simp
  finally show ?case using 1 by simp
qed simp_all

lemma groups_hex:
  "\<forall>c \<in> set s. is_hex_digit c \<Longrightarrow> g \<in> set (groups_of_4 s) \<Longrightarrow>
   length g = 4 \<and> (\<forall>c \<in> set g. is_hex_digit c)"
  by (induction s rule: groups_of_4.induct) auto

text \<open>
  Claim C9. On a string of hexadecimal digits and blanks, \<^verbatim>\<open>array_from_hex_string\<close>
  removes the blanks, takes the consecutive groups of four characters, leaves out
  what remains after the last complete group, and sets the array to the signed
  16-bit values of the groups.
\<close>

theorem array_from_hex_string_groups:
  assumes "\<forall>c \<in> set hex_string. is_hex_digit c \<or> c = 32"
  shows "array_from_hex_string interp hex_string self =
     (None, self\<lparr>array := map (\<lambda>g. signed16 (hex_value g))
                               (groups_of_4 (filter (\<lambda>c. c \<noteq> 32) hex_string))\<rparr>)"
proof -
  let ?s = "filter (\<lambda>c. c \<noteq> 32) hex_string"
  have h: "\<forall>c \<in> set ?s. is_hex_digit c" using assms by auto
  then have st: "strip (remove 32 hex_string) = ?s"
    using hex_digit_facts(1) by (simp add: remove_def strip_no_space)
  let ?v = "\<lambda>i. int (hex_value (take 4 (drop (i * 4) ?s)))"
  have g: "take 4 (drop (i * 4) ?s) \<in> set (groups_of_4 ?s)" if "i \<in> set [0..<length ?s div 4]" for i
    using that groups_by_index[of ?s, symmetric] by (metis (no_types, lifting) imageI set_map)
  have p: "\<forall>i \<in> set [0..<length ?s div 4]. py_int interp 16 (take 4 (drop (i * 4) ?s)) = Inr (?v i)"
  proof
    fix i assume "i \<in> set [0..<length ?s div 4]"
    from groups_hex[OF h g[OF this]]
    show "py_int interp 16 (take 4 (drop (i * 4) ?s)) = Inr (?v i)"
      by (intro py_int_hex) auto
  qed
  have e: "map (\<lambda>i. np_int16 (?v i)) [0..<length ?s div 4]
      = map (\<lambda>g. signed16 (hex_value g)) (groups_of_4 ?s)"
  proof -
    have "map (\<lambda>i. np_int16 (?v i)) [0..<length ?s div 4]
        = map (\<lambda>g. np_int16 (int (hex_value g))) (map (\<lambda>i. take 4 (drop (i * 4) ?s)) [0..<length ?s div 4])"
      by (simp add: comp_def)
    also have "\<dots> = map (\<lambda>g. np_int16 (int (hex_value g))) (groups_of_4 ?s)"
      by (simp only: groups_by_index)
    also have "\<dots> = map (\<lambda>g. signed16 (hex_value g)) (groups_of_4 ?s)"
    proof (rule map_cong[OF refl])
      fix g assume "g \<in> set (groups_of_4 ?s)"
      from groups_hex[OF h this] have "length g = 4" "\<forall>c \<in> set g. is_hex_digit c" by auto
      with hex_value_bound[of g] have "hex_value g < 65536" by simp
      then show "np_int16 (int (hex_value g)) = signed16 (hex_value g)"
        by (rule np_int16_signed16)
    qed
    finally show ?thesis .
  qed
  show ?thesis
    unfolding array_from_hex_string_def Let_def st
    by (simp add: hex_loop_all[OF p] e del: upt.simps)
qed

theorem array_from_hex_string_groups_witness:
  "list_all (\<lambda>c. is_hex_digit c \<or> c = 32) (lit ''0001 0002 0003'')
   \<and> array_from_hex_string an_interpreter (lit ''0001 0002 0003'') ArbData_init
       = (None, ArbData_init\<lparr>array := [1, 2, 3]\<rparr>)
   \<and> list_all (\<lambda>c. is_hex_digit c \<or> c = 32) (lit ''000100020003'')
   \<and> array_from_hex_string an_interpreter (lit ''000100020003'') ArbData_init
       = (None, ArbData_init\<lparr>array := [1, 2, 3]\<rparr>)
   \<and> list_all (\<lambda>c. is_hex_digit c \<or> c = 32) (lit ''7FFF FFFF 0000 0001 8001 12'')
   \<and> array_from_hex_string an_interpreter (lit ''7FFF FFFF 0000 0001 8001 12'') ArbData_init
       = (None, ArbData_init\<lparr>array := [32767, - 1, 0, 1, - 32767]\<rparr>)"
proof -
  have a: "\<forall>c \<in> set (lit ''0001 0002 0003''). is_hex_digit c \<or> c = 32"
    and b: "\<forall>c \<in> set (lit ''000100020003''). is_hex_digit c \<or> c = 32"
    and c: "\<forall>c \<in> set (lit ''7FFF FFFF 0000 0001 8001 12''). is_hex_digit c \<or> c = 32"
    by (simp_all add: lit_def is_hex_digit_def)
  have va: "map (\<lambda>g. signed16 (hex_value g))
              (groups_of_4 (filter (\<lambda>c. c \<noteq> 32) (lit ''0001 0002 0003''))) = [1, 2, 3]"
    and vb: "map (\<lambda>g. signed16 (hex_value g))
              (groups_of_4 (filter (\<lambda>c. c \<noteq> 32) (lit ''000100020003''))) = [1, 2, 3]"
    and vc: "map (\<lambda>g. signed16 (hex_value g))
              (groups_of_4 (filter (\<lambda>c. c \<noteq> 32) (lit ''7FFF FFFF 0000 0001 8001 12'')))
             = [32767, - 1, 0, 1, - 32767]"
    by (simp_all add: lit_def hex_digit_def signed16_def)
  from array_from_hex_string_groups[OF a, of an_interpreter ArbData_init]
    array_from_hex_string_groups[OF b, of an_interpreter ArbData_init]
    array_from_hex_string_groups[OF c, of an_interpreter ArbData_init]
    a b c show ?thesis
    unfolding va vb vc list_all_iff by blast
qed


lemma payload_Cons:
  "payload (x # xs) = [of_int (x mod 65536 div 256), of_int (x mod 256)] @ payload xs"
  by (simp add: payload_def)

lemma length_payload: "length (payload xs) = 2 * length xs"
  by (induction xs) (simp_all add: payload_Cons, simp add: payload_def)

lemma array_as_bytes_loop_payload:
  "list_all in_int16 xs \<Longrightarrow> array_as_bytes_loop xs acc = Inr (acc @ payload xs)"
proof (induction xs arbitrary: acc)
  case Nil
  then show ?case by (simp add: payload_def)
next
  case (Cons x xs)
  then show ?case by (simp add: payload_Cons to_bytes_def in_int16_def)
qed

lemma uint_byte_of_int: "0 \<le> k \<Longrightarrow> k < 256 \<Longrightarrow> uint (of_int k :: byte) = k"
  by (simp add: uint_word_of_int_eq take_bit_eq_mod)

lemma from_bytes_pair:
  assumes "in_int16 x"
  shows "from_bytes [of_int (x mod 65536 div 256), of_int (x mod 256)] = x"
proof -
  define a where "a = x mod 65536"
  have a: "0 \<le> a" "a < 65536" by (simp_all add: a_def)
  have h: "uint (of_int (a div 256) :: byte) = a div 256"
    using a by (intro uint_byte_of_int) auto
  have "x mod 256 = a mod 256"
    unfolding a_def by (simp add: mod_mod_cancel)
  then have l: "uint (of_int (x mod 256) :: byte) = a mod 256"
    by (simp add: uint_byte_of_int)
  have v: "a div 256 * 256 + a mod 256 = a" by simp
  have f: "foldl (\<lambda>a b. a * 256 + uint b) 0 [of_int (a div 256), of_int (x mod 256) :: byte] = a"
    using h l v by simp
  show ?thesis
  proof (cases "0 \<le> x")
    case True
    with assms have "a = x" by (simp add: a_def in_int16_def)
    with f assms show ?thesis
      unfolding from_bytes_def a_def[symmetric] by (simp add: Let_def in_int16_def)
  next
    case False
    with assms have "a = x + 65536"
      unfolding a_def in_int16_def
      by (smt (verit, best) mod_add_self2 mod_pos_pos_trivial)
    with f assms False show ?thesis
      unfolding from_bytes_def a_def[symmetric] by (simp add: Let_def in_int16_def)
  qed
qed

lemma pairs_by_index:
  "map (\<lambda>i. f (take 2 (drop (i * 2) (a # b # rest)))) [0..<Suc n]
     = f [a, b] # map (\<lambda>i. f (take 2 (drop (i * 2) rest))) [0..<n]"
proof -
  have u: "[0..<Suc n] = 0 # map Suc [0..<n]"
    using upt_conv_Cons[of 0 "Suc n"] by (simp only: map_Suc_upt zero_less_Suc)
  have d: "drop (Suc i * 2) (a # b # rest) = drop (i * 2) rest" for i
  proof -
    have "Suc i * 2 = Suc (Suc (i * 2))" by simp
    then show ?thesis by (simp only: drop_Suc_Cons)
  qed
  have "map (\<lambda>i. f (take 2 (drop (i * 2) (a # b # rest)))) [0..<Suc n]
      = f (take 2 (drop (0 * 2) (a # b # rest)))
        # map (\<lambda>i. f (take 2 (drop (Suc i * 2) (a # b # rest)))) [0..<n]"
    unfolding u by (simp add: comp_def del: upt_Suc mult_Suc)
  then show ?thesis unfolding d by simp
qed

lemma decode_payload:
  "list_all in_int16 xs \<Longrightarrow>
   map (\<lambda>i. from_bytes (take 2 (drop (i * 2) (payload xs)))) [0..<length xs] = xs"
proof (induction xs)
  case Nil
  then show ?case by simp
next
  case (Cons x xs)
  then show ?case
    using pairs_by_index[of from_bytes _ _ "payload xs" "length xs"]
    by (simp add: payload_Cons from_bytes_pair del: upt_Suc)
qed

lemma latin1_roundtrip: "latin1_encode (latin1_decode b) = Inr b"
proof -
  have "unat c < 256" for c :: byte
    using unsigned_less[of c, where ?'a = nat] by simp
  then have "list_all (\<lambda>c. c < 256) (map unat b)"
    by (auto simp: list_all_iff)
  then show ?thesis by (simp add: latin1_encode_def latin1_decode_def comp_def)
qed

lemma latin1_roundtrip':
  "list_all (\<lambda>c. c < 256) s \<Longrightarrow>
   latin1_encode s = Inr (map of_nat s) \<and> latin1_decode (map of_nat s) = s"
proof -
  assume a: "list_all (\<lambda>c. c < 256) s"
  have "map (\<lambda>c. unat (of_nat c :: byte)) s = s"
    using a by (intro map_idI) (auto simp: list_all_iff unat_of_nat)
  with a show ?thesis by (simp add: latin1_encode_def latin1_decode_def comp_def)
qed

lemma py_str_digits: "list_all is_digit (py_str n) \<and> py_str n \<noteq> []"
proof (induction n rule: py_str.induct)
  case (1 n)
  show ?case
  proof (cases "n < 10")
    case True
    then show ?thesis by (subst (1 2) py_str.simps) (simp add: list_all_iff is_digit_def)
  next
    case False
    have "n mod 10 \<le> 9" by (simp add: Suc_leI)
    with False 1 show ?thesis
      by (subst (1 2) py_str.simps) (simp add: list_all_iff is_digit_def)
  qed
qed

lemma length_py_str: "n < 10 ^ Suc k \<Longrightarrow> length (py_str n) \<le> Suc k"
proof (induction k arbitrary: n)
  case 0
  then show ?case by (subst py_str.simps) simp
next
  case (Suc k)
  show ?case
  proof (cases "n < 10")
    case True
    then show ?thesis by (subst py_str.simps) simp
  next
    case False
    from Suc.prems have "n div 10 < 10 ^ Suc k" by (simp add: less_mult_imp_div_less)
    from Suc.IH[OF this] False show ?thesis by (subst py_str.simps) simp
  qed
qed

lemma py_str_small: "n < 10 \<Longrightarrow> py_str n = [48 + n]"
  by (subst py_str.simps) simp

lemma string_value:
  assumes "list_all in_int16 xs"
  shows "string (self\<lparr>array := xs\<rparr>) =
     Inr ([35] @ py_str (length (py_str (2 * length xs))) @ py_str (2 * length xs)
          @ latin1_decode (payload xs))"
  using array_as_bytes_loop_payload[OF assms, of "[]"]
  by (simp add: string_def array_as_bytes_def Let_def lit_def latin1_decode_def length_payload)

lemma latin1_decode_small: "list_all (\<lambda>c. c < 256) (latin1_decode b)"
proof -
  have "unat c < 256" for c :: byte
    using unsigned_less[of c, where ?'a = nat] by simp
  then show ?thesis by (auto simp: list_all_iff latin1_decode_def)
qed

lemma digits_small: "list_all is_digit s \<Longrightarrow> list_all (\<lambda>c. c < 256) s"
  by (auto simp: list_all_iff is_digit_def)

lemma array_from_bytes_payload:
  assumes "list_all in_int16 xs"
  shows "array_from_bytes (latin1_decode (payload xs)) self = (None, self\<lparr>array := xs\<rparr>)"
  using decode_payload[OF assms]
  by (simp add: array_from_bytes_def latin1_roundtrip length_payload Let_def del: upt_Suc)

lemma array_from_bytes_length:
  "list_all (\<lambda>c. c < 256) data \<Longrightarrow>
   length (array (snd (array_from_bytes data self))) = length data div 2"
  using latin1_roundtrip'[of data] by (simp add: array_from_bytes_def Let_def)

lemma init_from_header:
  assumes "n < 10" "length l = n" "list_all (\<lambda>c. c < 256) (l @ data)"
  shows "init_from_bytestring interp (map of_nat ([35, 48 + n] @ l @ data)) self
       = array_from_bytes data self"
proof -
  let ?s = "[35, 48 + n] @ l @ data"
  have "list_all (\<lambda>c. c < 256) ?s" using assms(1,3) by simp
  from latin1_roundtrip'[OF this] have d: "latin1_decode (map of_nat ?s) = ?s" by simp
  have "list_all is_digit [48 + n]" using assms(1) by (simp add: is_digit_def)
  from py_int_digits(1)[OF _ this, of interp]
  have p: "py_int interp 10 [48 + n] = Inr (int n)" by (simp add: allowed_def)
  have "slice_from (2 + int n) ?s = data"
    using assms(2) by (simp add: slice_from_def nat_add_distrib)
  with p show ?thesis
    unfolding init_from_bytestring_def d by (simp add: Let_def)
qed

text \<open>
  Claim C8, as amended. A list of fewer than 500000000 points, set as the array and
  rendered by the property \<^verbatim>\<open>string\<close>, can be encoded in Latin-1, and
  \<^verbatim>\<open>init_from_bytestring\<close> of the encoding on a fresh \<^verbatim>\<open>ArbData\<close> yields the list again.
\<close>

theorem ArbData_round_trip:
  assumes "list_all in_int16 xs" "length xs < 500000000"
  shows "\<exists>s b. string (self\<lparr>array := xs\<rparr>) = Inr s \<and> latin1_encode s = Inr b
       \<and> init_from_bytestring interp b ArbData_init = (None, ArbData_init\<lparr>array := xs\<rparr>)"
proof -
  let ?N = "2 * length xs"
  let ?l = "py_str ?N"
  let ?data = "latin1_decode (payload xs)"
  let ?s = "[35, 48 + length ?l] @ ?l @ ?data"
  have "?N < 10 ^ Suc 8" using assms(2) by simp
  from length_py_str[OF this] have n: "length ?l < 10" by simp
  have s: "string (self\<lparr>array := xs\<rparr>) = Inr ?s"
    using string_value[OF assms(1), of self] n by (simp add: py_str_small)
  have c: "list_all (\<lambda>c. c < 256) (?l @ ?data)"
    using py_str_digits[of ?N] latin1_decode_small[of "payload xs"] by (simp add: digits_small)
  then have "list_all (\<lambda>c. c < 256) ?s" using n by simp
  from latin1_roundtrip'[OF this] have e: "latin1_encode ?s = Inr (map of_nat ?s)" by simp
  have "init_from_bytestring interp (map of_nat ?s) ArbData_init
      = (None, ArbData_init\<lparr>array := xs\<rparr>)"
    using init_from_header[OF n refl c] array_from_bytes_payload[OF assms(1)] by simp
  with s e show ?thesis by blast
qed

theorem ArbData_round_trip_witness:
  "list_all in_int16 [1, - 2, 32767, - 32768] \<and> length [1, - 2, 32767, - 32768 :: int] < 500000000
   \<and> (\<exists>s b. string (ArbData_init\<lparr>array := [1, - 2, 32767, - 32768]\<rparr>) = Inr s
         \<and> latin1_encode s = Inr b
         \<and> init_from_bytestring an_interpreter b ArbData_init
             = (None, ArbData_init\<lparr>array := [1, - 2, 32767, - 32768]\<rparr>))"
proof -
  have a: "list_all in_int16 [1, - 2, 32767, - 32768]" by (simp add: in_int16_def)
  have b: "length [1, - 2, 32767, - 32768 :: int] < 500000000" by simp
  from ArbData_round_trip[OF a b, of ArbData_init an_interpreter] a b show ?thesis by blast
qed

text \<open>
  Claim C8 as stated fails on a list of 500000000 points: the data take 1000000000
  bytes, the length takes ten digits, and the number of these digits no longer fits
  the single character that \<^verbatim>\<open>init_from_bytestring\<close> reads. The array that comes back
  has five numbers more than the list.
\<close>

theorem ArbData_round_trip_too_long:
  "\<exists>s b. string (ArbData_init\<lparr>array := replicate 500000000 0\<rparr>) = Inr s
       \<and> latin1_encode s = Inr b
       \<and> length (array (snd (init_from_bytestring an_interpreter b ArbData_init))) = 500000005
       \<and> array (snd (init_from_bytestring an_interpreter b ArbData_init)) \<noteq> replicate 500000000 0"
proof -
  let ?xs = "replicate 500000000 (0 :: int)"
  let ?data = "latin1_decode (payload ?xs)"
  let ?l = "[48] :: pystr"
  let ?rest = "lit ''1000000000'' @ ?data"
  let ?s = "[35, 48 + 1] @ ?l @ ?rest"
  have a: "list_all in_int16 ?xs" by (simp add: list_all_iff in_int16_def)
  have p: "py_str 1000000000 = lit ''1000000000''" by (simp add: py_str.simps lit_def)
  have q: "py_str 10 = [49, 48]" by (simp add: py_str.simps)
  have l: "length (lit ''1000000000'') = 10" by (simp add: lit_def)
  have s: "string (ArbData_init\<lparr>array := ?xs\<rparr>) = Inr ?s"
    using string_value[OF a, of ArbData_init] by (simp add: p q l)
  have c: "list_all (\<lambda>c. c < 256) (?l @ ?rest)"
    using latin1_decode_small[of "payload ?xs"] by (simp add: lit_def)
  then have "list_all (\<lambda>c. c < 256) ?s" by simp
  from latin1_roundtrip'[OF this] have e: "latin1_encode ?s = Inr (map of_nat ?s)" by simp
  have i: "init_from_bytestring an_interpreter (map of_nat ?s) ArbData_init
      = array_from_bytes ?rest ArbData_init"
    by (rule init_from_header[OF _ _ c]) simp_all
  have r: "list_all (\<lambda>c. c < 256) ?rest" using c by simp
  have n: "length (array (snd (init_from_bytestring an_interpreter (map of_nat ?s) ArbData_init)))
      = 500000005"
    unfolding i array_from_bytes_length[OF r]
    by (simp add: l latin1_decode_def length_payload)
  have "array (snd (init_from_bytestring an_interpreter (map of_nat ?s) ArbData_init)) \<noteq> ?xs"
  proof
    assume "array (snd (init_from_bytestring an_interpreter (map of_nat ?s) ArbData_init)) = ?xs"
    then have "length (array (snd (init_from_bytestring an_interpreter (map of_nat ?s) ArbData_init)))
        = 500000000"
      by (simp only: length_replicate)
    with n show False by simp
  qed
  with s e n show ?thesis by blast
qed


lemma setitem_pair:
  "c = 1 \<or> c = 2 \<Longrightarrow>
   setitem (PyList [a, b]) (c - 1) v = Inr (PyList (if c = 1 then [v, b] else [a, v]))"
  by (auto simp: position_def)

lemma getitem_pair:
  "c = 1 \<or> c = 2 \<Longrightarrow> getitem (PyList [a, b]) (c - 1) = Inr (if c = 1 then a else b)"
  by (auto simp: position_def)

text \<open>
  The setters that assign to the item of the selected channel do what claim C10 says:
  on a simulator whose lists hold an item for each of the two channels, the getter
  returns the value set, and the item of the other channel stays as it was.
\<close>

lemma item_setters_per_channel:
  fixes self :: "('t, 'f) Tgf4000Simulator"
  assumes "c = 1 \<or> c = 2"
    "amplitude self = PyList [a1, a2]" "frequency self = PyList [f1, f2]"
    "waveform_type self = PyList [w1, w2]" "dc_offset self = PyList [d1, d2]"
    "output_status self = PyList [s1, s2]"
  shows "get_amplitude (snd (set_amplitude v (set_channel c self))) = Inr v"
    and "get_frequency (snd (set_frequency v (set_channel c self))) = Inr v"
    and "get_waveform_type (snd (set_waveform_type v (set_channel c self))) = Inr v"
    and "get_dc_offset (snd (set_dc_offset v (set_channel c self))) = Inr v"
    and "get_output_status (snd (set_output_status v (set_channel c self))) = Inr v"
    and "getitem (amplitude (snd (set_amplitude v (set_channel c self)))) (3 - c - 1)
           = getitem (amplitude self) (3 - c - 1)"
    and "getitem (frequency (snd (set_frequency v (set_channel c self)))) (3 - c - 1)
           = getitem (frequency self) (3 - c - 1)"
    and "getitem (waveform_type (snd (set_waveform_type v (set_channel c self)))) (3 - c - 1)
           = getitem (waveform_type self) (3 - c - 1)"
    and "getitem (dc_offset (snd (set_dc_offset v (set_channel c self)))) (3 - c - 1)
           = getitem (dc_offset self) (3 - c - 1)"
    and "getitem (output_status (snd (set_output_status v (set_channel c self)))) (3 - c - 1)
           = getitem (output_status self) (3 - c - 1)"
  using assms
  by (auto simp: set_channel_def get_channel_def position_def
      set_amplitude_def get_amplitude_def set_frequency_def get_frequency_def
      set_waveform_type_def get_waveform_type_def set_dc_offset_def get_dc_offset_def
      set_output_status_def get_output_status_def)

text \<open>
  Claim C10 fails for \<^verbatim>\<open>set_output_load\<close>. After \<^verbatim>\<open>set_channel(1)\<close> and
  \<^verbatim>\<open>set_output_load(50.0)\<close> on a new simulator, \<^verbatim>\<open>get_output_load()\<close> raises \<^verbatim>\<open>TypeError\<close>
  in place of returning the load, and what was recorded for channel 2 is gone as well;
  with the load \<^verbatim>\<open>"OPEN"\<close> the getter returns the character \<^verbatim>\<open>"O"\<close>. The setter of the
  amplitude, on the same simulator, does what the claim says.
\<close>

theorem set_output_load_replaces_the_list:
  "get_output_load (snd (set_output_load (PyFloat 50) (set_channel 1 a_simulator)))
     = Inl TypeError
   \<and> getitem (output_load a_simulator) (2 - 1) = Inr PyNone
   \<and> getitem (output_load (snd (set_output_load (PyFloat 50) (set_channel 1 a_simulator)))) (2 - 1)
       = Inl TypeError
   \<and> get_output_load (snd (set_output_load (PyStr (lit ''OPEN'')) (set_channel 1 a_simulator)))
       = Inr (PyStr (lit ''O''))
   \<and> get_amplitude (snd (set_amplitude (PyFloat 50) (set_channel 1 a_simulator)))
       = Inr (PyFloat 50)
   \<and> getitem (amplitude (snd (set_amplitude (PyFloat 50) (set_channel 1 a_simulator)))) (2 - 1)
       = Inr PyNone"
  by (simp add: a_simulator_def set_channel_def get_channel_def set_output_load_def
      get_output_load_def set_amplitude_def get_amplitude_def position_def lit_def)


text \<open>
  Claim C7. A protocol that has been constructed keeps the flag it was given; with the
  flag set its device is a \<^verbatim>\<open>Tgf4000Simulator\<close>, without it a \<^verbatim>\<open>Tgf4000Controller\<close>;
  \<^verbatim>\<open>get_device()\<close> returns that device, and \<^verbatim>\<open>is_simulator()\<close> of the device is the flag.
\<close>

theorem protocol_backend:
  assumes "Tgf4000Protocol_init read_conversion_dict query net DEVICE_SETTINGS d sim = Inr p"
  shows "simulator p = sim \<and> get_device p = tgf4000 p
       \<and> (sim \<longrightarrow> (\<exists>s. get_device p = Simulator s))
       \<and> (\<not> sim \<longrightarrow> (\<exists>c. get_device p = Controller c))
       \<and> is_simulator (get_device p) = sim"
proof (cases sim)
  case True
  with assms obtain table s where
    "p = \<lparr>hk_conversion_table = table, simulator = True, tgf4000 = Simulator s\<rparr>"
    by (auto simp: Tgf4000Protocol_init_def split: sum.splits error.splits if_splits)
  with True show ?thesis
    by (simp add: get_device_def Simulator_is_simulator_def)
next
  case False
  with assms obtain table c where
    "p = \<lparr>hk_conversion_table = table, simulator = False, tgf4000 = Controller c\<rparr>"
    by (auto simp: Tgf4000Protocol_init_def
        split: sum.splits error.splits if_splits prod.splits option.splits)
  with False show ?thesis
    by (simp add: get_device_def Controller_is_simulator_def)
qed

lemma read_loop_numeral:
  "read_loop (numeral k) n_total data s =
     (case recv buf_size s of
        (Inl e, s') \<Rightarrow> (Inl e, s')
      | (Inr d, s') \<Rightarrow>
          if length d < buf_size then (Inr (d, n_total + length d), s')
          else read_loop (pred_numeral k) (n_total + length d) d s')"
  by (simp add: numeral_eq_Suc)

lemma identification_text:
  "decode identification = Some (lit ''THURLBY THANDAR, TGF4162, 527758, 01.00-02.10-01.20'' @ [13, 10])"
  by (simp add: identification_def lit_def)

lemma a_controller_connects:
  "\<exists>t. connect trans' a_network
         \<lparr>hostname = Some (lit ''localhost''), port = Some 9221,
          device_id = Some (lit ''TGF4000''), sock = None, is_connection_open = False,
          read_timeout = 60\<rparr> = (None, t)"
  by (simp add: connect_def a_network_def is_connected_def IDENTIFICATION_QUERY_def trans'_def terminated_def endswith_def LF_def utf8_encode_cp_def lit_def peer_def sendall_def read_def gettimeout_def settimeout_def read_loop_numeral recv_def buf_size_def identification_def rstrip_def isspace_def)

theorem protocol_backend_witness:
  "(\<exists>p :: (nat, int, unit) Tgf4000Protocol.
      Tgf4000Protocol_init (Inl SetupError) trans' a_network some_settings (lit ''TGF4000'') True
        = Inr p
      \<and> simulator p \<and> is_simulator (get_device p) \<and> (\<exists>s. get_device p = Simulator s))
   \<and> (\<exists>p :: (nat, int, unit) Tgf4000Protocol.
      Tgf4000Protocol_init (Inl SetupError) trans' a_network some_settings (lit ''TGF4000'') False
        = Inr p
      \<and> \<not> simulator p \<and> \<not> is_simulator (get_device p) \<and> (\<exists>c. get_device p = Controller c))"
proof -
  have "\<exists>p :: (nat, int, unit) Tgf4000Protocol.
      Tgf4000Protocol_init (Inl SetupError) trans' a_network some_settings (lit ''TGF4000'') True
        = Inr p"
    by (simp add: Tgf4000Protocol_init_def Tgf4000Simulator_init_def Tgf4000Interface_init_def
        EthernetInterface_init_def some_settings_def)
  then obtain p :: "(nat, int, unit) Tgf4000Protocol" where
    p: "Tgf4000Protocol_init (Inl SetupError) trans' a_network some_settings (lit ''TGF4000'') True
        = Inr p"
    by blast
  from a_controller_connects obtain t where
    t: "connect trans' a_network
         \<lparr>hostname = Some (lit ''localhost''), port = Some 9221,
          device_id = Some (lit ''TGF4000''), sock = None, is_connection_open = False,
          read_timeout = 60\<rparr> = (None, t)"
    by blast
  have "\<exists>q :: (nat, int, unit) Tgf4000Protocol.
      Tgf4000Protocol_init (Inl SetupError) trans' a_network some_settings (lit ''TGF4000'') False
        = Inr q"
    by (simp add: Tgf4000Protocol_init_def Tgf4000Controller_init_def Tgf4000Interface_init_def
        EthernetInterface_init_def some_settings_def Controller_connect_def t)
  then obtain q :: "(nat, int, unit) Tgf4000Protocol" where
    q: "Tgf4000Protocol_init (Inl SetupError) trans' a_network some_settings (lit ''TGF4000'') False
        = Inr q"
    by blast
  from protocol_backend[OF p] protocol_backend[OF q] p q show ?thesis by blast
qed

end
